theory Spec2Isabelle
  imports Main "HOL-Library.Word" "HOL-Library.Sublist"
begin

section \<open>JavaScript strings\<close>

text \<open>
  A JavaScript string is a sequence of UTF-16 code units. Literals of the source that are
  plain ASCII are written with \<open>lit\<close>; the pictographs of the report are given by their
  code units (a surrogate pair for a code point above U+FFFF).
\<close>

type_synonym code_unit = "16 word"
type_synonym jsstring = "code_unit list"

definition lit :: "string \<Rightarrow> jsstring" where
  "lit s = map of_char s"

definition LF :: code_unit where
  "LF = 0x0A"

definition CR :: code_unit where
  "CR = 0x0D"

text \<open>\<open>s.includes(pat)\<close>: some position of \<open>s\<close> starts an occurrence of \<open>pat\<close>.\<close>

fun str_includes :: "jsstring \<Rightarrow> jsstring \<Rightarrow> bool" where
  "str_includes pat [] = (pat = [])"
| "str_includes pat (c # cs) = (prefix pat (c # cs) \<or> str_includes pat cs)"

text \<open>\<open>s.startsWith(pat)\<close>.\<close>

definition str_startsWith :: "jsstring \<Rightarrow> jsstring \<Rightarrow> bool" where
  "str_startsWith pat s = prefix pat s"

text \<open>
  \<open>s.replace(pat, rep)\<close> for a string pattern and a replacement without \<open>$\<close>: the first
  occurrence of \<open>pat\<close> is replaced, the rest of \<open>s\<close> is kept.
\<close>

fun str_replace :: "jsstring \<Rightarrow> jsstring \<Rightarrow> jsstring \<Rightarrow> jsstring" where
  "str_replace pat rep [] = (if pat = [] then rep else [])"
| "str_replace pat rep (c # cs) =
     (if prefix pat (c # cs) then rep @ drop (length pat) (c # cs)
      else c # str_replace pat rep cs)"

text \<open>
  \<open>x || d\<close> for a property \<open>x\<close> that is a string or absent: the empty string is falsy,
  as \<open>undefined\<close> and \<open>null\<close> are.
\<close>

definition or_default :: "jsstring option \<Rightarrow> jsstring \<Rightarrow> jsstring" where
  "or_default x d = (case x of None \<Rightarrow> d | Some s \<Rightarrow> if s = [] then d else s)"

section \<open>Dates\<close>

text \<open>
  The time functions of ECMAScript (ECMA-262, Time Values and Time Range) on integral time
  values, in milliseconds since the epoch. Integer division and remainder of HOL round
  towards minus infinity, as \<open>floor\<close> and \<open>modulo\<close> of the standard do.
\<close>

definition msPerDay :: int where
  "msPerDay = 86400000"

definition Day :: "int \<Rightarrow> int" where
  "Day t = t div msPerDay"

definition TimeWithinDay :: "int \<Rightarrow> int" where
  "TimeWithinDay t = t mod msPerDay"

definition DaysInYear :: "int \<Rightarrow> int" where
  "DaysInYear y =
     (if y mod 4 \<noteq> 0 then 365
      else if y mod 100 \<noteq> 0 then 366
      else if y mod 400 \<noteq> 0 then 365
      else 366)"

definition DayFromYear :: "int \<Rightarrow> int" where
  "DayFromYear y =
     365 * (y - 1970) + (y - 1969) div 4 - (y - 1901) div 100 + (y - 1601) div 400"

definition TimeFromYear :: "int \<Rightarrow> int" where
  "TimeFromYear y = msPerDay * DayFromYear y"

text \<open>
  The standard takes for \<open>YearFromTime t\<close> the largest year \<open>y\<close> with
  \<open>TimeFromYear y \<le> t\<close>. It is computed from the mean length of the Gregorian year
  (146097 days in 400 years), which is off by one year at most; \<open>YearFromTime_largest\<close>
  below shows that the result is the year of the standard.
\<close>

definition YearFromDay :: "int \<Rightarrow> int" where
  "YearFromDay d =
     (let y = 1970 + (d * 400) div 146097
      in if DayFromYear (y + 1) \<le> d then y + 1
         else if DayFromYear y \<le> d then y
         else y - 1)"

definition YearFromTime :: "int \<Rightarrow> int" where
  "YearFromTime t = YearFromDay (Day t)"

definition InLeapYear :: "int \<Rightarrow> int" where
  "InLeapYear t = (if DaysInYear (YearFromTime t) = 366 then 1 else 0)"

definition DayWithinYear :: "int \<Rightarrow> int" where
  "DayWithinYear t = Day t - DayFromYear (YearFromTime t)"

text \<open>The number of days of the year before month \<open>m\<close> (0 is January); \<open>l\<close> is \<open>InLeapYear\<close>.\<close>

definition month_start :: "int \<Rightarrow> int \<Rightarrow> int" where
  "month_start l m =
     (if m = 0 then 0
      else if m = 1 then 31
      else if m = 2 then 59 + l
      else if m = 3 then 90 + l
      else if m = 4 then 120 + l
      else if m = 5 then 151 + l
      else if m = 6 then 181 + l
      else if m = 7 then 212 + l
      else if m = 8 then 243 + l
      else if m = 9 then 273 + l
      else if m = 10 then 304 + l
      else if m = 11 then 334 + l
      else 365 + l)"

definition MonthFromTime :: "int \<Rightarrow> int" where
  "MonthFromTime t =
     (let d = DayWithinYear t; l = InLeapYear t
      in if d < 31 then 0
         else if d < 59 + l then 1
         else if d < 90 + l then 2
         else if d < 120 + l then 3
         else if d < 151 + l then 4
         else if d < 181 + l then 5
         else if d < 212 + l then 6
         else if d < 243 + l then 7
         else if d < 273 + l then 8
         else if d < 304 + l then 9
         else if d < 334 + l then 10
         else 11)"

definition DateFromTime :: "int \<Rightarrow> int" where
  "DateFromTime t =
     (let d = DayWithinYear t; l = InLeapYear t; m = MonthFromTime t
      in if m = 0 then d + 1
         else if m = 1 then d - 30
         else if m = 2 then d - 58 - l
         else if m = 3 then d - 89 - l
         else if m = 4 then d - 119 - l
         else if m = 5 then d - 150 - l
         else if m = 6 then d - 180 - l
         else if m = 7 then d - 211 - l
         else if m = 8 then d - 242 - l
         else if m = 9 then d - 272 - l
         else if m = 10 then d - 303 - l
         else d - 333 - l)"

definition HourFromTime :: "int \<Rightarrow> int" where
  "HourFromTime t = (t div 3600000) mod 24"

definition MinFromTime :: "int \<Rightarrow> int" where
  "MinFromTime t = (t div 60000) mod 60"

definition SecFromTime :: "int \<Rightarrow> int" where
  "SecFromTime t = (t div 1000) mod 60"

definition msFromTime :: "int \<Rightarrow> int" where
  "msFromTime t = t mod 1000"

text \<open>Decimal digits, most significant first, padded with zeros to \<open>k\<close> places.\<close>

fun pad :: "nat \<Rightarrow> nat \<Rightarrow> jsstring" where
  "pad 0 n = []"
| "pad (Suc k) n = pad k (n div 10) @ [of_nat (48 + n mod 10)]"

text \<open>
  The year of \<open>toISOString\<close>: four digits from 0 to 9999, otherwise a sign and six digits.
\<close>

definition iso_year :: "int \<Rightarrow> jsstring" where
  "iso_year y =
     (if 0 \<le> y \<and> y \<le> 9999 then pad 4 (nat y)
      else (if y < 0 then lit ''-'' else lit ''+'') @ pad 6 (nat \<bar>y\<bar>))"

text \<open>
  \<open>YYYY-MM-DDTHH:mm:ss.sssZ\<close> for a year, a month from 1, a day of the month, and the
  time of the day.
\<close>

definition iso_format :: "int \<Rightarrow> int \<Rightarrow> int \<Rightarrow> int \<Rightarrow> int \<Rightarrow> int \<Rightarrow> int \<Rightarrow> jsstring" where
  "iso_format y mo d h mi s ms =
     iso_year y @ lit ''-'' @ pad 2 (nat mo) @ lit ''-'' @ pad 2 (nat d) @ lit ''T''
       @ pad 2 (nat h) @ lit '':'' @ pad 2 (nat mi) @ lit '':'' @ pad 2 (nat s)
       @ lit ''.'' @ pad 3 (nat ms) @ lit ''Z''"

definition iso_string :: "int \<Rightarrow> jsstring" where
  "iso_string t =
     iso_format (YearFromTime t) (MonthFromTime t + 1) (DateFromTime t)
       (HourFromTime t) (MinFromTime t) (SecFromTime t) (msFromTime t)"

text \<open>
  The way back, as the standard's \<open>MakeDay\<close>, \<open>MakeTime\<close> and \<open>MakeDate\<close> go for a date
  of the calendar: the time value of a year, a month from 0 and a day of the month, and
  of a time of the day. \<open>valid_date\<close> says that the fields are those of a date and time
  of the calendar, the month counted from 1 as in the string.
\<close>

definition leap :: "int \<Rightarrow> int" where
  "leap y = (if DaysInYear y = 366 then 1 else 0)"

definition MakeDay :: "int \<Rightarrow> int \<Rightarrow> int \<Rightarrow> int" where
  "MakeDay y m dt = DayFromYear y + month_start (leap y) m + dt - 1"

definition MakeTime :: "int \<Rightarrow> int \<Rightarrow> int \<Rightarrow> int \<Rightarrow> int" where
  "MakeTime h mi s ms = h * 3600000 + mi * 60000 + s * 1000 + ms"

definition MakeDate :: "int \<Rightarrow> int \<Rightarrow> int" where
  "MakeDate day time = day * msPerDay + time"

definition valid_date :: "int \<Rightarrow> int \<Rightarrow> int \<Rightarrow> int \<Rightarrow> int \<Rightarrow> int \<Rightarrow> int \<Rightarrow> bool" where
  "valid_date y mo d h mi s ms \<longleftrightarrow>
     1 \<le> mo \<and> mo \<le> 12 \<and> 1 \<le> d
     \<and> month_start (leap y) (mo - 1) + d \<le> month_start (leap y) mo
     \<and> 0 \<le> h \<and> h < 24 \<and> 0 \<le> mi \<and> mi < 60 \<and> 0 \<le> s \<and> s < 60 \<and> 0 \<le> ms \<and> ms < 1000"

datatype error = RangeError | TypeError | EISDIR | ENOENT

text \<open>
  \<open>new Date(v)\<close> clips the time value: beyond 8.64e15 ms on either side of the epoch the
  date is invalid. \<open>toISOString\<close> throws a RangeError on an invalid date.
\<close>

definition TimeClip :: "int \<Rightarrow> int option" where
  "TimeClip v = (if \<bar>v\<bar> > 8640000000000000 then None else Some v)"

definition toISOString :: "int option \<Rightarrow> error + jsstring" where
  "toISOString tv = (case tv of None \<Rightarrow> Inl RangeError | Some t \<Rightarrow> Inr (iso_string t))"

section \<open>formatTimestamp\<close>

text \<open>
  The argument of \<open>formatTimestamp\<close>: a missing property, \<open>null\<close>, \<open>NaN\<close> or an integral
  number. Every integer a certificate date can hold is a double, and so is its product
  with 1000 whenever that product is within the range \<open>TimeClip\<close> accepts; a larger
  product is rejected whatever its rounding, so the arithmetic on \<open>int\<close> is exact.
\<close>

datatype jsnumber = JUndefined | JNull | JNaN | JInt int

fun falsy :: "jsnumber \<Rightarrow> bool" where
  "falsy JUndefined = True"
| "falsy JNull = True"
| "falsy JNaN = True"
| "falsy (JInt n) = (n = 0)"

text \<open>
  The time value of \<open>new Date(timestamp * 1000)\<close>: \<open>undefined * 1000\<close> and
  \<open>NaN * 1000\<close> are \<open>NaN\<close>, \<open>null * 1000\<close> is 0.
\<close>

fun new_Date_ms :: "jsnumber \<Rightarrow> int option" where
  "new_Date_ms (JInt n) = TimeClip (n * 1000)"
| "new_Date_ms JNull = TimeClip 0"
| "new_Date_ms JUndefined = None"
| "new_Date_ms JNaN = None"

definition formatTimestamp :: "jsnumber \<Rightarrow> error + jsstring" where
  "formatTimestamp timestamp =
     (if falsy timestamp then Inr (lit ''N/A'')
      else toISOString (new_Date_ms timestamp))"

section \<open>The security-state handler of checkTLS\<close>

text \<open>
  The handler is that of \<open>check-pqc.js\<close>. The earlier revision of the script among the
  sources computes the same constants with the same statements and has the same
  \<open>main\<close>; its report lacks the line of the server header.
\<close>

text \<open>
  \<open>certificateSecurityState\<close> as the debugging protocol delivers it; a property that is
  missing is \<open>None\<close> (\<open>JUndefined\<close> for a date).
\<close>

record certState =
  protocol :: "jsstring option"
  keyExchange :: "jsstring option"
  keyExchangeGroup :: "jsstring option"
  cipher :: "jsstring option"
  subjectName :: "jsstring option"
  issuer :: "jsstring option"
  validFrom :: jsnumber
  validTo :: jsnumber

text \<open>\<open>certState = securityState.certificateSecurityState || {}\<close>.\<close>

definition empty_certState :: certState where
  "empty_certState =
     \<lparr>protocol = None, keyExchange = None, keyExchangeGroup = None, cipher = None,
      subjectName = None, issuer = None, validFrom = JUndefined, validTo = JUndefined\<rparr>"

definition certState_of :: "certState option \<Rightarrow> certState" where
  "certState_of cso = (case cso of None \<Rightarrow> empty_certState | Some c \<Rightarrow> c)"

record visibleSecurityState =
  securityState :: "jsstring option"
  certificateSecurityState :: "certState option"

text \<open>
  The constants the handler computes before it formats (lines 84 to 98), under the names
  of the source. In \<open>classify\<close> a prime tells the constant from the property it is read
  from.
\<close>

record locals =
  loc_protocol :: jsstring
  loc_tlsVersion :: jsstring
  loc_isQUIC :: bool
  loc_keyExchange :: jsstring
  loc_keyExchangeGroup :: jsstring
  loc_cipher :: jsstring
  loc_subjectName :: jsstring
  loc_issuer :: jsstring
  loc_validFrom :: jsstring
  loc_validTo :: jsstring
  loc_pqcDetected :: bool

definition classify :: "certState option \<Rightarrow> error + locals" where
  "classify cso =
     (let certState = certState_of cso;
          protocol' = or_default (protocol certState) (lit ''Unknown'');
          tlsVersion' = (if str_startsWith (lit ''TLS'') protocol'
                         then str_replace (lit ''TLS '') (lit ''TLS '') protocol'
                         else protocol');
          isQUIC' = str_includes (lit ''QUIC'') protocol';
          keyExchange' = or_default (keyExchange certState)
                           (if isQUIC' then lit ''Handled by QUIC'' else lit ''N/A'');
          keyExchangeGroup' = or_default (keyExchangeGroup certState) (lit ''N/A'');
          cipher' = or_default (cipher certState) (lit ''N/A'');
          subjectName' = or_default (subjectName certState) (lit ''N/A'');
          issuer' = or_default (issuer certState) (lit ''N/A'')
      in case formatTimestamp (validFrom certState) of
           Inl e \<Rightarrow> Inl e
         | Inr validFrom' \<Rightarrow>
             (case formatTimestamp (validTo certState) of
                Inl e \<Rightarrow> Inl e
              | Inr validTo' \<Rightarrow>
                  Inr \<lparr>loc_protocol = protocol', loc_tlsVersion = tlsVersion',
                       loc_isQUIC = isQUIC', loc_keyExchange = keyExchange',
                       loc_keyExchangeGroup = keyExchangeGroup', loc_cipher = cipher',
                       loc_subjectName = subjectName', loc_issuer = issuer',
                       loc_validFrom = validFrom', loc_validTo = validTo',
                       loc_pqcDetected = str_includes (lit ''MLKEM'') keyExchangeGroup'\<rparr>))"

text \<open>The expression of line 104.\<close>

definition transportLabel :: "locals \<Rightarrow> jsstring" where
  "transportLabel l =
     (if loc_isQUIC l then lit ''QUIC (Uses TLS 1.3 Encryption)'' else loc_tlsVersion l)"

subsection \<open>The text of the report\<close>

definition glass :: jsstring where "glass = [0xD83D, 0xDD0D]"
definition padlock :: jsstring where "padlock = [0xD83D, 0xDD12]"
definition desktop :: jsstring where "desktop = [0xD83D, 0xDDA5, 0xFE0F]"
definition globe :: jsstring where "globe = [0xD83C, 0xDF10]"
definition key :: jsstring where "key = [0xD83D, 0xDD11]"
definition arrows :: jsstring where "arrows = [0xD83D, 0xDD04]"
definition locked_key :: jsstring where "locked_key = [0xD83D, 0xDD10]"
definition scroll :: jsstring where "scroll = [0xD83D, 0xDCDC]"
definition building :: jsstring where "building = [0xD83C, 0xDFDB, 0xFE0F]"
definition calendar :: jsstring where "calendar = [0xD83D, 0xDCC5]"
definition check_mark :: jsstring where "check_mark = [0x2705]"
definition party :: jsstring where "party = [0xD83C, 0xDF89]"
definition cross_mark :: jsstring where "cross_mark = [0x274C]"

text \<open>Line 56: the value \<open>result\<close> starts with.\<close>

definition header :: "jsstring \<Rightarrow> jsstring" where
  "header url = [LF] @ glass @ lit '' Checking: '' @ url @ [LF]"

definition separator :: jsstring where
  "separator = lit ''----------------------------------------'' @ [LF]"

definition line_state :: "jsstring \<Rightarrow> jsstring" where
  "line_state upper = padlock @ lit '' Security State: '' @ upper @ [LF]"

definition line_server :: "jsstring \<Rightarrow> jsstring" where
  "line_server serverHeader = desktop @ lit '' Server: '' @ serverHeader @ [LF]"

definition line_transport :: "locals \<Rightarrow> jsstring" where
  "line_transport l = globe @ lit '' Transport Protocol: '' @ transportLabel l @ [LF]"

definition line_keyExchange :: "locals \<Rightarrow> jsstring" where
  "line_keyExchange l = key @ lit '' Key Exchange: '' @ loc_keyExchange l @ [LF]"

definition line_keyExchangeGroup :: "locals \<Rightarrow> jsstring" where
  "line_keyExchangeGroup l =
     arrows @ lit '' Key Exchange Group: '' @ loc_keyExchangeGroup l @ [LF]"

definition line_cipher :: "locals \<Rightarrow> jsstring" where
  "line_cipher l = locked_key @ lit '' Cipher Suite: '' @ loc_cipher l @ [LF]"

definition line_subject :: "locals \<Rightarrow> jsstring" where
  "line_subject l = scroll @ lit '' Certificate Subject: '' @ loc_subjectName l @ [LF]"

definition line_issuer :: "locals \<Rightarrow> jsstring" where
  "line_issuer l = building @ lit '' Issuer: '' @ loc_issuer l @ [LF]"

definition line_validFrom :: "locals \<Rightarrow> jsstring" where
  "line_validFrom l = calendar @ lit '' Valid From: '' @ loc_validFrom l @ [LF]"

definition line_validTo :: "locals \<Rightarrow> jsstring" where
  "line_validTo l = calendar @ lit '' Valid To: '' @ loc_validTo l @ [LF]"

definition line_verdict :: "locals \<Rightarrow> jsstring" where
  "line_verdict l =
     (if loc_pqcDetected l
      then check_mark @ lit '' This site is using Post-Quantum Encryption (PQC)! '' @ party
             @ [LF]
      else cross_mark @ lit '' This site is NOT using Post-Quantum Encryption.'' @ [LF])"

text \<open>What lines 102 to 116 append to \<open>result\<close>, after the separator of line 101.\<close>

definition report_body :: "jsstring \<Rightarrow> jsstring \<Rightarrow> locals \<Rightarrow> jsstring" where
  "report_body upper serverHeader l =
     line_state upper @ line_server serverHeader @ line_transport l @ line_keyExchange l
       @ line_keyExchangeGroup l @ line_cipher l @ line_subject l @ line_issuer l
       @ line_validFrom l @ line_validTo l @ separator @ line_verdict l"

subsection \<open>State and handlers\<close>

text \<open>
  What the handlers of one \<open>checkTLS\<close> call share and write: the variables \<open>result\<close> and
  \<open>serverHeader\<close> of the closure, the values passed to \<open>console.log\<close> and the chunks
  written to the log stream, oldest first.
\<close>

record page_state =
  result :: jsstring
  serverHeader :: jsstring
  console :: "jsstring list"
  logStream :: "jsstring list"

text \<open>Lines 56 and 76, on the console and the log stream as \<open>checkTLS\<close> finds them.\<close>

definition checkTLS_init :: "jsstring \<Rightarrow> jsstring list \<Rightarrow> jsstring list \<Rightarrow> page_state" where
  "checkTLS_init url con log =
     \<lparr>result = header url, serverHeader = lit ''N/A'', console = con, logStream = log\<rparr>"

text \<open>
  The listener of \<open>Security.visibleSecurityStateChanged\<close> (lines 79 to 120). It returns
  the exception it throws, if any, and the state it leaves. \<open>toUpperCase\<close> is the
  built-in of that name, a parameter here: its Unicode tables are no part of the program.
  A missing \<open>securityState\<close> makes line 102 throw after line 101 has run.
\<close>

definition on_visibleSecurityStateChanged ::
  "(jsstring \<Rightarrow> jsstring) \<Rightarrow> visibleSecurityState \<Rightarrow> page_state \<Rightarrow> error option \<times> page_state"
where
  "on_visibleSecurityStateChanged toUpperCase ev s =
     (case classify (certificateSecurityState ev) of
        Inl e \<Rightarrow> (Some e, s)
      | Inr l \<Rightarrow>
          (let s1 = s\<lparr>result := result s @ separator\<rparr>
           in case securityState ev of
                None \<Rightarrow> (Some TypeError, s1)
              | Some st \<Rightarrow>
                  (let r = result s1 @ report_body (toUpperCase st) (serverHeader s1) l
                   in (None, s1\<lparr>result := r, console := console s1 @ [r],
                                logStream := logStream s1 @ [r @ [LF]]\<rparr>))))"

text \<open>
  The listener of \<open>response\<close> (lines 123 to 129): \<open>headers\<close> maps the lower-cased header
  names to their values.
\<close>

definition on_response :: "(jsstring \<rightharpoonup> jsstring) \<Rightarrow> page_state \<Rightarrow> page_state" where
  "on_response headers s =
     (case headers (lit ''server'') of
        None \<Rightarrow> s
      | Some v \<Rightarrow> if v = [] then s else s\<lparr>serverHeader := v\<rparr>)"

text \<open>
  The events of one page, in the order they arrive. A listener that throws ends the run:
  what the browser library does with the exception is outside this program.
\<close>

datatype page_event =
  Response "jsstring \<rightharpoonup> jsstring"
| SecurityStateChanged visibleSecurityState

fun run_events ::
  "(jsstring \<Rightarrow> jsstring) \<Rightarrow> page_event list \<Rightarrow> page_state \<Rightarrow> error + page_state"
where
  "run_events up [] s = Inr s"
| "run_events up (Response h # es) s = run_events up es (on_response h s)"
| "run_events up (SecurityStateChanged ev # es) s =
     (case on_visibleSecurityStateChanged up ev s of
        (Some e, _) \<Rightarrow> Inl e
      | (None, s') \<Rightarrow> run_events up es s')"

section \<open>main: the list of URLs\<close>

text \<open>
  \<open>String.prototype.trim\<close> removes the white space and line terminators of ECMAScript
  from both ends. All of them are single code units.
\<close>

definition isWhiteSpace :: "code_unit \<Rightarrow> bool" where
  "isWhiteSpace c \<longleftrightarrow>
     c \<in> {0x09, 0x0A, 0x0B, 0x0C, 0x0D, 0x20, 0xA0, 0x1680, 0x2000, 0x2001, 0x2002, 0x2003,
          0x2004, 0x2005, 0x2006, 0x2007, 0x2008, 0x2009, 0x200A, 0x2028, 0x2029, 0x202F,
          0x205F, 0x3000, 0xFEFF}"

definition str_trim :: "jsstring \<Rightarrow> jsstring" where
  "str_trim s = rev (dropWhile isWhiteSpace (rev (dropWhile isWhiteSpace s)))"

text \<open>
  \<open>s.split(/\r?\n/)\<close>: scanning from the left, a line ends at a line feed, or at a
  carriage return that a line feed follows; a carriage return alone stays in its line.
\<close>

fun cons_first :: "code_unit \<Rightarrow> jsstring list \<Rightarrow> jsstring list" where
  "cons_first c [] = [[c]]"
| "cons_first c (l # ls) = (c # l) # ls"

fun split_lines :: "jsstring \<Rightarrow> jsstring list" where
  "split_lines [] = [[]]"
| "split_lines [c] = (if c = LF then [[], []] else [[c]])"
| "split_lines (c # d # cs) =
     (if c = LF then [] # split_lines (d # cs)
      else if c = CR \<and> d = LF then [] # split_lines cs
      else cons_first c (split_lines (d # cs)))"

text \<open>The file system as \<open>main\<close> sees it: what a path names, if anything.\<close>

datatype fs_entry = File jsstring | Directory

type_synonym filesystem = "jsstring \<rightharpoonup> fs_entry"

definition existsSync :: "filesystem \<Rightarrow> jsstring \<Rightarrow> bool" where
  "existsSync fs p = (fs p \<noteq> None)"

text \<open>\<open>fs.readFileSync(p, 'utf-8')\<close>: the decoded content, or the exception.\<close>

definition readFileSync :: "filesystem \<Rightarrow> jsstring \<Rightarrow> error + jsstring" where
  "readFileSync fs p =
     (case fs p of
        None \<Rightarrow> Inl ENOENT
      | Some Directory \<Rightarrow> Inl EISDIR
      | Some (File content) \<Rightarrow> Inr content)"

text \<open>
  Lines 159 to 167; \<open>args\<close> is \<open>process.argv.slice(2)\<close>. The flag tells whether the
  branch that reads the file was taken.
\<close>

definition file_mode :: "filesystem \<Rightarrow> jsstring list \<Rightarrow> bool" where
  "file_mode fs args = (length args = 1 \<and> existsSync fs (args ! 0))"

text \<open>
  \<open>urls.push(...lines)\<close> of line 166 passes every element of \<open>lines\<close> as an argument of
  one call. The engine throws a RangeError (Maximum call stack size exceeded) when the
  arguments do not fit its stack. How many fit depends on the engine and its stack size,
  so the number is a parameter, \<open>max_args\<close>.
\<close>

definition push_spread :: "nat \<Rightarrow> jsstring list \<Rightarrow> jsstring list \<Rightarrow> error + jsstring list" where
  "push_spread max_args urls lines =
     (if max_args < length lines then Inl RangeError else Inr (urls @ lines))"

definition resolve_urls :: "nat \<Rightarrow> filesystem \<Rightarrow> jsstring list \<Rightarrow> error + jsstring list" where
  "resolve_urls max_args fs args =
     (if file_mode fs args
      then (case readFileSync fs (args ! 0) of
              Inl e \<Rightarrow> Inl e
            | Inr fileContent \<Rightarrow>
                push_spread max_args []
                  (filter (\<lambda>line. str_trim line \<noteq> []) (split_lines fileContent)))
      else Inr args)"

text \<open>
  What \<open>main\<close> does with the list: without a URL it writes the usage line to the error
  stream and exits with the code; otherwise it calls \<open>checkTLS\<close> on every URL in order.
\<close>

datatype main_result =
  UsageExit jsstring nat
| CheckAll "jsstring list"

definition usage :: jsstring where
  "usage = lit ''Usage: node check-pqc.js <URL> or <file-with-URLs>''"

definition main :: "nat \<Rightarrow> filesystem \<Rightarrow> jsstring list \<Rightarrow> error + main_result" where
  "main max_args fs args =
     (case resolve_urls max_args fs args of
        Inl e \<Rightarrow> Inl e
      | Inr urls \<Rightarrow> if length urls = 0 then Inr (UsageExit usage 1) else Inr (CheckAll urls))"

section \<open>Example inputs\<close>

text \<open>
  A TLS 1.3 connection with a hybrid key-exchange group, and what the handler computes
  from it.
\<close>

definition scenario_certState :: certState where
  "scenario_certState =
     \<lparr>protocol = Some (lit ''TLS 1.3''), keyExchange = None,
      keyExchangeGroup = Some (lit ''X25519_MLKEM768''),
      cipher = Some (lit ''TLS_AES_128_GCM_SHA256''),
      subjectName = Some (lit ''example.com''), issuer = Some (lit ''Test CA''),
      validFrom = JInt 1704067200, validTo = JInt 1735689599\<rparr>"

definition scenario_locals :: locals where
  "scenario_locals =
     \<lparr>loc_protocol = lit ''TLS 1.3'', loc_tlsVersion = lit ''TLS 1.3'', loc_isQUIC = False,
      loc_keyExchange = lit ''N/A'', loc_keyExchangeGroup = lit ''X25519_MLKEM768'',
      loc_cipher = lit ''TLS_AES_128_GCM_SHA256'', loc_subjectName = lit ''example.com'',
      loc_issuer = lit ''Test CA'', loc_validFrom = lit ''2024-01-01T00:00:00.000Z'',
      loc_validTo = lit ''2024-12-31T23:59:59.000Z'', loc_pqcDetected = True\<rparr>"

text \<open>What the handler computes when \<open>certificateSecurityState\<close> is missing.\<close>

definition absent_locals :: locals where
  "absent_locals =
     \<lparr>loc_protocol = lit ''Unknown'', loc_tlsVersion = lit ''Unknown'', loc_isQUIC = False,
      loc_keyExchange = lit ''N/A'', loc_keyExchangeGroup = lit ''N/A'',
      loc_cipher = lit ''N/A'', loc_subjectName = lit ''N/A'', loc_issuer = lit ''N/A'',
      loc_validFrom = lit ''N/A'', loc_validTo = lit ''N/A'', loc_pqcDetected = False\<rparr>"

text \<open>A connection over QUIC, for which the browser reports no key exchange.\<close>

definition quic_certState :: certState where
  "quic_certState =
     \<lparr>protocol = Some (lit ''QUIC''), keyExchange = None,
      keyExchangeGroup = Some (lit ''X25519''),
      cipher = Some (lit ''AES_128_GCM''),
      subjectName = Some (lit ''example.org''), issuer = Some (lit ''Test CA''),
      validFrom = JInt 1704067200, validTo = JNull\<rparr>"

definition quic_locals :: locals where
  "quic_locals =
     \<lparr>loc_protocol = lit ''QUIC'', loc_tlsVersion = lit ''QUIC'', loc_isQUIC = True,
      loc_keyExchange = lit ''Handled by QUIC'', loc_keyExchangeGroup = lit ''X25519'',
      loc_cipher = lit ''AES_128_GCM'', loc_subjectName = lit ''example.org'',
      loc_issuer = lit ''Test CA'', loc_validFrom = lit ''2024-01-01T00:00:00.000Z'',
      loc_validTo = lit ''N/A'', loc_pqcDetected = False\<rparr>"

text \<open>A certificate state whose \<open>protocol\<close> is the empty string.\<close>

definition blank_protocol_certState :: certState where
  "blank_protocol_certState = scenario_certState\<lparr>protocol := Some []\<rparr>"

definition blank_protocol_locals :: locals where
  "blank_protocol_locals =
     scenario_locals\<lparr>loc_protocol := lit ''Unknown'', loc_tlsVersion := lit ''Unknown''\<rparr>"

text \<open>A certificate date one second beyond the range of \<open>Date\<close>.\<close>

definition far_certState :: certState where
  "far_certState = scenario_certState\<lparr>validTo := JInt 8640000000001\<rparr>"

text \<open>
  \<open>toUpperCase\<close> on the strings the examples use: the letters a to z go to A to Z, every
  other code unit stays.
\<close>

definition upper_ascii :: "jsstring \<Rightarrow> jsstring" where
  "upper_ascii = map (\<lambda>c. if 0x61 \<le> c \<and> c \<le> 0x7A then c - 0x20 else c)"

text \<open>The dates \<open>new Date\<close> accepts: no integer beyond 8.64e12 seconds from the epoch.\<close>

fun in_Date_range :: "jsnumber \<Rightarrow> bool" where
  "in_Date_range (JInt n) = (\<bar>n\<bar> \<le> 8640000000000)"
| "in_Date_range _ = True"

section \<open>The report and the notifications of a page\<close>

text \<open>
  The notifications on which the handler throws nothing: \<open>securityState\<close> is present and
  both certificate dates are within the range of \<open>Date\<close>.
\<close>

definition notification_ok :: "visibleSecurityState \<Rightarrow> bool" where
  "notification_ok ev \<longleftrightarrow>
     securityState ev \<noteq> None
     \<and> in_Date_range (validFrom (certState_of (certificateSecurityState ev)))
     \<and> in_Date_range (validTo (certState_of (certificateSecurityState ev)))"

fun event_ok :: "page_event \<Rightarrow> bool" where
  "event_ok (Response hs) = True"
| "event_ok (SecurityStateChanged ev) = notification_ok ev"

text \<open>
  What a notification adds to \<open>result\<close> when the handler throws nothing, for the server
  header of that moment.
\<close>

definition notification_block ::
  "(jsstring \<Rightarrow> jsstring) \<Rightarrow> jsstring \<Rightarrow> visibleSecurityState \<Rightarrow> jsstring"
where
  "notification_block up h ev =
     (case classify (certificateSecurityState ev) of
        Inl e \<Rightarrow> []
      | Inr l \<Rightarrow>
          (case securityState ev of
             None \<Rightarrow> []
           | Some st \<Rightarrow> separator @ report_body (up st) h l))"

text \<open>The server header after a response with the given headers.\<close>

definition server_after :: "jsstring \<Rightarrow> (jsstring \<rightharpoonup> jsstring) \<Rightarrow> jsstring" where
  "server_after h headers =
     (case headers (lit ''server'') of None \<Rightarrow> h | Some v \<Rightarrow> if v = [] then h else v)"

text \<open>The blocks of the notifications among the events of a page, in order.\<close>

fun blocks :: "(jsstring \<Rightarrow> jsstring) \<Rightarrow> jsstring \<Rightarrow> page_event list \<Rightarrow> jsstring list" where
  "blocks up h [] = []"
| "blocks up h (Response hs # es) = blocks up (server_after h hs) es"
| "blocks up h (SecurityStateChanged ev # es) = notification_block up h ev # blocks up h es"

text \<open>The texts handed over when the blocks are appended one by one to \<open>r\<close>.\<close>

fun emitted :: "jsstring \<Rightarrow> jsstring list \<Rightarrow> jsstring list" where
  "emitted r [] = []"
| "emitted r (b # bs) = (r @ b) # emitted (r @ b) bs"

text \<open>Notifications and pages for the examples.\<close>

definition secure_absent :: visibleSecurityState where
  "secure_absent = \<lparr>securityState = Some (lit ''secure''), certificateSecurityState = None\<rparr>"

definition secure_scenario :: visibleSecurityState where
  "secure_scenario =
     \<lparr>securityState = Some (lit ''secure''), certificateSecurityState = Some scenario_certState\<rparr>"

definition example_url :: jsstring where
  "example_url = lit ''https://example.com''"

definition block0 :: jsstring where
  "block0 = separator @ report_body (lit ''SECURE'') (lit ''N/A'') absent_locals"

definition twice_state :: page_state where
  "twice_state =
     \<lparr>result = header example_url @ block0 @ block0, serverHeader = lit ''N/A'',
      console = [header example_url @ block0, header example_url @ block0 @ block0],
      logStream = [header example_url @ block0 @ [LF],
                   header example_url @ block0 @ block0 @ [LF]]\<rparr>"

definition cloudflare_page :: page_state where
  "cloudflare_page =
     \<lparr>result = header example_url, serverHeader = lit ''cloudflare'', console = [],
      logStream = []\<rparr>"

section \<open>The lines of a file of URLs\<close>

text \<open>A line with a code unit that is no white space.\<close>

definition nonblank :: "jsstring \<Rightarrow> bool" where
  "nonblank l \<longleftrightarrow> (\<exists>c\<in>set l. \<not> isWhiteSpace c)"

text \<open>
  The line ends that \<open>split_lines\<close> removes, in order, and a text put together again
  from its lines and line ends.
\<close>

fun terminators :: "jsstring \<Rightarrow> jsstring list" where
  "terminators [] = []"
| "terminators [c] = (if c = LF then [[LF]] else [])"
| "terminators (c # d # cs) =
     (if c = LF then [LF] # terminators (d # cs)
      else if c = CR \<and> d = LF then [CR, LF] # terminators cs
      else terminators (d # cs))"

fun weave :: "jsstring list \<Rightarrow> jsstring list \<Rightarrow> jsstring" where
  "weave [] ts = []"
| "weave (l # ls) [] = l"
| "weave (l # ls) (t # ts) = l @ t @ weave ls ts"

text \<open>A file system with a list of URLs, a file of blank lines and a directory.\<close>

definition urls_txt :: jsstring where
  "urls_txt = lit ''https://a.example'' @ [CR, LF] @ [0x20, 0x09] @ [LF, LF]
                @ lit ''https://b.example '' @ [LF]"

definition blank_txt :: jsstring where
  "blank_txt = [0x20, CR, LF, 0x09, LF]"

definition example_fs :: filesystem where
  "example_fs =
     [lit ''urls.txt'' \<mapsto> File urls_txt, lit ''blank.txt'' \<mapsto> File blank_txt,
      lit ''logs'' \<mapsto> Directory]"

text \<open>A file of \<open>n\<close> lines, each the same URL, and a file system that holds a million of them.\<close>

definition many_urls :: "nat \<Rightarrow> jsstring" where
  "many_urls n = concat (replicate n (lit ''https://example.com'' @ [LF]))"

definition big_fs :: filesystem where
  "big_fs = [lit ''urls.txt'' \<mapsto> File (many_urls 1000000)]"

section \<open>Strings: the functions against their meaning\<close>

lemma str_includes_iff_sublist: "str_includes pat s \<longleftrightarrow> sublist pat s"
  by (induction s) (auto simp: sublist_Cons_right)

lemma str_replace_same: "str_replace pat pat s = s"
  by (induction s) (auto simp: prefix_def)

lemma or_default_None: "or_default None d = d"
  by (simp add: or_default_def)

lemma or_default_Some: "s \<noteq> [] \<Longrightarrow> or_default (Some s) d = s"
  by (simp add: or_default_def)

lemma or_default_empty: "or_default (Some []) d = d"
  by (simp add: or_default_def)

section \<open>Dates: the calendar\<close>

lemma div_lower: "0 < k \<Longrightarrow> k * (x div k) \<le> (x::int)"
  using pos_mod_sign [of k x] mult_div_mod_eq [of k x] by linarith

lemma div_upper: "0 < k \<Longrightarrow> (x::int) < k * (x div k) + k"
  using pos_mod_bound [of k x] mult_div_mod_eq [of k x] by linarith

lemma succ_div:
  fixes x k :: int
  assumes "0 < k"
  shows "(x + 1) div k = x div k + (if (x + 1) mod k = 0 then 1 else 0)"
proof -
  define q where "q = x div k"
  define r where "r = x mod k"
  have x: "x = k * q + r" by (simp add: q_def r_def)
  have r: "0 \<le> r" "r < k" using assms by (simp_all add: r_def)
  show ?thesis
  proof (cases "r + 1 = k")
    case True
    have "x + 1 = k * (q + 1) + 0" using x True by (simp add: algebra_simps)
    then have "(x + 1) div k = q + 1" "(x + 1) mod k = 0"
      using assms by (auto intro: int_div_pos_eq int_mod_pos_eq)
    then show ?thesis by (simp add: q_def)
  next
    case False
    have "x + 1 = k * q + (r + 1)" using x by simp
    moreover have "0 \<le> r + 1" "r + 1 < k" using r False by simp_all
    ultimately have "(x + 1) div k = q" "(x + 1) mod k = r + 1"
      by (auto intro: int_div_pos_eq int_mod_pos_eq)
    then show ?thesis using r by (simp add: q_def)
  qed
qed

lemma DayFromYear_upper: "400 * DayFromYear y \<le> 146097 * (y - 1970) + 590"
  unfolding DayFromYear_def
  using div_lower [of 4 "y - 1969"] div_upper [of 100 "y - 1901"] div_lower [of 400 "y - 1601"]
  by simp

lemma DayFromYear_lower: "146097 * (y - 1970) - 590 \<le> 400 * DayFromYear y"
  unfolding DayFromYear_def
  using div_upper [of 4 "y - 1969"] div_lower [of 100 "y - 1901"] div_upper [of 400 "y - 1601"]
  by simp

lemma YearFromDay_bounds:
  "DayFromYear (YearFromDay d) \<le> d \<and> d < DayFromYear (YearFromDay d + 1)"
proof -
  define y where "y = 1970 + (d * 400) div 146097"
  have lo: "146097 * (y - 1970) \<le> 400 * d"
    using div_lower [of 146097 "d * 400"] by (simp add: y_def)
  have hi: "400 * d < 146097 * (y - 1970) + 146097"
    using div_upper [of 146097 "d * 400"] by (simp add: y_def)
  have "400 * DayFromYear (y - 1) \<le> 400 * d"
    using DayFromYear_upper [of "y - 1"] lo by simp
  then have a: "DayFromYear (y - 1) \<le> d" by simp
  have "400 * d < 400 * DayFromYear (y + 1 + 1)"
    using DayFromYear_lower [of "y + 1 + 1"] hi by simp
  then have b: "d < DayFromYear (y + 1 + 1)" by simp
  have Y: "YearFromDay d = (if DayFromYear (y + 1) \<le> d then y + 1
                           else if DayFromYear y \<le> d then y else y - 1)"
    by (simp add: YearFromDay_def y_def Let_def)
  consider "DayFromYear (y + 1) \<le> d" | "\<not> DayFromYear (y + 1) \<le> d" "DayFromYear y \<le> d"
    | "\<not> DayFromYear (y + 1) \<le> d" "\<not> DayFromYear y \<le> d" by blast
  then show ?thesis
  proof cases
    case 1
    then show ?thesis using b Y by simp
  next
    case 2
    then show ?thesis using Y by simp
  next
    case 3
    then show ?thesis using a Y by simp
  qed
qed

lemma mod_shift: "(y - k * c) mod k = (y::int) mod k"
  by (metis add.commute diff_add_cancel mod_mult_self4)

lemma DayFromYear_step: "DayFromYear (y + 1) = DayFromYear y + DaysInYear y"
proof -
  have a: "(y + 1 - 1969) div 4 = (y - 1969) div 4 + (if y mod 4 = 0 then 1 else 0)"
    using succ_div [of 4 "y - 1969"] mod_shift [of y 4 492] by (simp add: algebra_simps)
  have b: "(y + 1 - 1901) div 100 = (y - 1901) div 100 + (if y mod 100 = 0 then 1 else 0)"
    using succ_div [of 100 "y - 1901"] mod_shift [of y 100 19] by (simp add: algebra_simps)
  have c: "(y + 1 - 1601) div 400 = (y - 1601) div 400 + (if y mod 400 = 0 then 1 else 0)"
    using succ_div [of 400 "y - 1601"] mod_shift [of y 400 4] by (simp add: algebra_simps)
  have d: "y mod 4 = 0" if "y mod 100 = 0"
  proof -
    from that have "100 dvd y" by (simp add: mod_eq_0_iff_dvd)
    moreover have "(4::int) dvd 100" by simp
    ultimately have "4 dvd y" by (rule dvd_trans [rotated])
    then show ?thesis by (simp add: mod_eq_0_iff_dvd)
  qed
  have e: "y mod 100 = 0" if "y mod 400 = 0"
  proof -
    from that have "400 dvd y" by (simp add: mod_eq_0_iff_dvd)
    moreover have "(100::int) dvd 400" by simp
    ultimately have "100 dvd y" by (rule dvd_trans [rotated])
    then show ?thesis by (simp add: mod_eq_0_iff_dvd)
  qed
  have f: "DayFromYear (y + 1) = 365 * (y + 1 - 1970) + (y + 1 - 1969) div 4
             - (y + 1 - 1901) div 100 + (y + 1 - 1601) div 400"
    by (simp only: DayFromYear_def)
  show ?thesis
  proof (cases "y mod 4 = 0")
    case False
    with d have h: "y mod 100 \<noteq> 0" by auto
    with e have "y mod 400 \<noteq> 0" by auto
    note h this
    with False show ?thesis
      unfolding f a b c by (simp add: DayFromYear_def DaysInYear_def)
  next
    case four: True
    show ?thesis
    proof (cases "y mod 100 = 0")
      case False
      with e have "y mod 400 \<noteq> 0" by auto
      with four False show ?thesis
        unfolding f a b c by (simp add: DayFromYear_def DaysInYear_def)
    next
      case True
      with four show ?thesis
        unfolding f a b c by (simp add: DayFromYear_def DaysInYear_def)
    qed
  qed
qed

lemma DaysInYear_pos: "0 < DaysInYear y"
  by (simp add: DaysInYear_def)

lemma DayFromYear_mono:
  assumes "a \<le> b"
  shows "DayFromYear a \<le> DayFromYear b"
  using assms
proof (induction b rule: int_ge_induct)
  case base
  then show ?case by simp
next
  case (step i)
  then show ?case using DayFromYear_step [of i] DaysInYear_pos [of i] by simp
qed

lemma YearFromDay_largest: "DayFromYear y \<le> d \<longleftrightarrow> y \<le> YearFromDay d"
proof
  assume le: "DayFromYear y \<le> d"
  show "y \<le> YearFromDay d"
  proof (rule ccontr)
    assume "\<not> y \<le> YearFromDay d"
    then have "YearFromDay d + 1 \<le> y" by simp
    from DayFromYear_mono [OF this] YearFromDay_bounds [of d] le show False by simp
  qed
next
  assume "y \<le> YearFromDay d"
  from DayFromYear_mono [OF this] YearFromDay_bounds [of d] show "DayFromYear y \<le> d" by simp
qed

lemma YearFromTime_largest: "TimeFromYear y \<le> t \<longleftrightarrow> y \<le> YearFromTime t"
proof -
  have "msPerDay * DayFromYear y \<le> t \<longleftrightarrow> DayFromYear y \<le> t div msPerDay"
    using div_lower [of 86400000 t] div_upper [of 86400000 t]
    by (simp add: msPerDay_def) linarith
  then show ?thesis
    by (simp add: TimeFromYear_def YearFromTime_def Day_def YearFromDay_largest)
qed


lemma DayWithinYear_bounds:
  "0 \<le> DayWithinYear t \<and> DayWithinYear t < DaysInYear (YearFromTime t)"
  using YearFromDay_bounds [of "Day t"] DayFromYear_step [of "YearFromDay (Day t)"]
  by (simp add: DayWithinYear_def YearFromTime_def)

lemma DaysInYear_cases: "DaysInYear y = 365 \<or> DaysInYear y = 366"
  by (simp add: DaysInYear_def)

lemma month_date:
  "0 \<le> MonthFromTime t \<and> MonthFromTime t \<le> 11 \<and> 1 \<le> DateFromTime t
   \<and> month_start (InLeapYear t) (MonthFromTime t) + (DateFromTime t - 1) = DayWithinYear t
   \<and> month_start (InLeapYear t) (MonthFromTime t) + DateFromTime t
        \<le> month_start (InLeapYear t) (MonthFromTime t + 1)"
proof -
  define d where "d = DayWithinYear t"
  define l where "l = InLeapYear t"
  have d: "0 \<le> d" "d < 365 + l"
    using DayWithinYear_bounds [of t] DaysInYear_cases [of "YearFromTime t"]
    by (auto simp: d_def l_def InLeapYear_def)
  have l: "l = 0 \<or> l = 1" by (simp add: l_def InLeapYear_def)
  show ?thesis
    unfolding d_def [symmetric] l_def [symmetric] MonthFromTime_def DateFromTime_def Let_def
    using d l by (auto simp: month_start_def)
qed

lemma time_of_day:
  "0 \<le> HourFromTime t \<and> HourFromTime t < 24 \<and> 0 \<le> MinFromTime t \<and> MinFromTime t < 60
   \<and> 0 \<le> SecFromTime t \<and> SecFromTime t < 60 \<and> 0 \<le> msFromTime t \<and> msFromTime t < 1000
   \<and> HourFromTime t * 3600000 + MinFromTime t * 60000 + SecFromTime t * 1000 + msFromTime t
        = TimeWithinDay t"
proof -
  define a where "a = t div 1000"
  define b where "b = a div 60"
  define c where "c = b div 60"
  have d1: "t div 60000 = b"
    using zdiv_zmult2_eq [of 60 t 1000] by (simp add: a_def b_def)
  have d2: "t div 3600000 = c"
    using zdiv_zmult2_eq [of 3600 t 1000] zdiv_zmult2_eq [of 60 a 60]
    by (simp add: a_def b_def c_def)
  have m1: "t mod 86400000 = 1000 * (a mod 86400) + t mod 1000"
    using zmod_zmult2_eq [of 86400 t 1000] by (simp add: a_def)
  have m2: "a mod 86400 = 60 * (b mod 1440) + a mod 60"
    using zmod_zmult2_eq [of 1440 a 60] by (simp add: b_def)
  have m3: "b mod 1440 = 60 * (c mod 24) + b mod 60"
    using zmod_zmult2_eq [of 24 b 60] by (simp add: c_def)
  show ?thesis
    unfolding HourFromTime_def MinFromTime_def SecFromTime_def msFromTime_def
      TimeWithinDay_def msPerDay_def d1 d2 m1 m2 m3 a_def [symmetric]
    by simp
qed

lemma MakeDate_roundtrip:
  "valid_date (YearFromTime t) (MonthFromTime t + 1) (DateFromTime t)
     (HourFromTime t) (MinFromTime t) (SecFromTime t) (msFromTime t)
   \<and> MakeDate (MakeDay (YearFromTime t) (MonthFromTime t) (DateFromTime t))
        (MakeTime (HourFromTime t) (MinFromTime t) (SecFromTime t) (msFromTime t)) = t"
proof -
  have l: "leap (YearFromTime t) = InLeapYear t"
    by (simp add: leap_def InLeapYear_def)
  have day: "MakeDay (YearFromTime t) (MonthFromTime t) (DateFromTime t) = Day t"
    using month_date [of t] by (simp add: MakeDay_def l DayWithinYear_def)
  have time: "MakeTime (HourFromTime t) (MinFromTime t) (SecFromTime t) (msFromTime t)
                = TimeWithinDay t"
    using time_of_day [of t] by (simp add: MakeTime_def)
  have "Day t * msPerDay + TimeWithinDay t = t"
    by (simp add: Day_def TimeWithinDay_def)
  then have inst: "MakeDate (MakeDay (YearFromTime t) (MonthFromTime t) (DateFromTime t))
        (MakeTime (HourFromTime t) (MinFromTime t) (SecFromTime t) (msFromTime t)) = t"
    by (simp add: MakeDate_def day time)
  have valid: "valid_date (YearFromTime t) (MonthFromTime t + 1) (DateFromTime t)
     (HourFromTime t) (MinFromTime t) (SecFromTime t) (msFromTime t)"
    using month_date [of t] time_of_day [of t] by (simp add: valid_date_def l)
  from valid inst show ?thesis by simp
qed

lemma before_epoch: "t < 0 \<Longrightarrow> YearFromTime t \<le> 1969"
proof (rule ccontr)
  assume neg: "t < 0" and "\<not> YearFromTime t \<le> 1969"
  then have y: "1970 \<le> YearFromDay (Day t)" by (simp add: YearFromTime_def)
  have "Day t < 0" using neg by (simp add: Day_def msPerDay_def)
  moreover have "DayFromYear (YearFromDay (Day t)) \<le> Day t"
    using YearFromDay_bounds [of "Day t"] by simp
  moreover have "0 \<le> 400 * DayFromYear (YearFromDay (Day t))"
  proof (cases "YearFromDay (Day t) = 1970")
    case True
    then show ?thesis by (simp add: DayFromYear_def)
  next
    case False
    with y have "1971 \<le> YearFromDay (Day t)" by simp
    then show ?thesis using DayFromYear_lower [of "YearFromDay (Day t)"] by simp
  qed
  ultimately show False by simp
qed

lemma length_pad: "length (pad k n) = k"
  by (induction k arbitrary: n) simp_all

lemma length_iso_format: "24 \<le> length (iso_format y mo d h mi s ms)"
  by (simp add: iso_format_def iso_year_def length_pad lit_def)

lemma iso_format_not_NA: "iso_format y mo d h mi s ms \<noteq> lit ''N/A''"
proof
  assume "iso_format y mo d h mi s ms = lit ''N/A''"
  then have "length (iso_format y mo d h mi s ms) = 3" by (simp add: lit_def)
  with length_iso_format [of y mo d h mi s ms] show False by simp
qed

lemma iso_format_suffix: "suffix (pad 3 (nat ms) @ lit ''Z'') (iso_format y mo d h mi s ms)"
  unfolding iso_format_def suffix_def by (metis append.assoc)

section \<open>formatTimestamp\<close>

lemma formatTimestamp_in_range:
  assumes "n \<noteq> 0" and "\<bar>n\<bar> \<le> 8640000000000"
  shows "formatTimestamp (JInt n) = Inr (iso_string (n * 1000))"
  using assms by (simp add: formatTimestamp_def toISOString_def TimeClip_def)

lemma formatTimestamp_out_of_range:
  assumes "8640000000000 < \<bar>n\<bar>"
  shows "formatTimestamp (JInt n) = Inl RangeError"
  using assms by (auto simp: formatTimestamp_def toISOString_def TimeClip_def)

lemma iso_string_seconds:
  "\<exists>y mo d h mi s.
      valid_date y mo d h mi s 0
      \<and> MakeDate (MakeDay y (mo - 1) d) (MakeTime h mi s 0) = n * 1000
      \<and> y = YearFromTime (n * 1000)
      \<and> iso_string (n * 1000) = iso_format y mo d h mi s 0"
proof -
  have ms: "msFromTime (n * 1000) = 0" by (simp add: msFromTime_def)
  show ?thesis
    using MakeDate_roundtrip [of "n * 1000"]
    unfolding ms iso_string_def
    by (intro exI [of _ "YearFromTime (n * 1000)"] exI [of _ "MonthFromTime (n * 1000) + 1"]
          exI [of _ "DateFromTime (n * 1000)"] exI [of _ "HourFromTime (n * 1000)"]
          exI [of _ "MinFromTime (n * 1000)"] exI [of _ "SecFromTime (n * 1000)"]) simp
qed

section \<open>The constants of the handler\<close>

lemma classify_fields:
  assumes "classify cso = Inr l"
  shows "loc_protocol l = or_default (protocol (certState_of cso)) (lit ''Unknown'')"
    and "loc_tlsVersion l = loc_protocol l"
    and "loc_isQUIC l = str_includes (lit ''QUIC'') (loc_protocol l)"
    and "loc_keyExchange l = or_default (keyExchange (certState_of cso))
           (if loc_isQUIC l then lit ''Handled by QUIC'' else lit ''N/A'')"
    and "loc_keyExchangeGroup l = or_default (keyExchangeGroup (certState_of cso)) (lit ''N/A'')"
    and "loc_cipher l = or_default (cipher (certState_of cso)) (lit ''N/A'')"
    and "loc_subjectName l = or_default (subjectName (certState_of cso)) (lit ''N/A'')"
    and "loc_issuer l = or_default (issuer (certState_of cso)) (lit ''N/A'')"
    and "formatTimestamp (validFrom (certState_of cso)) = Inr (loc_validFrom l)"
    and "formatTimestamp (validTo (certState_of cso)) = Inr (loc_validTo l)"
    and "loc_pqcDetected l = str_includes (lit ''MLKEM'') (loc_keyExchangeGroup l)"
  using assms
  by (auto simp: classify_def Let_def str_replace_same split: sum.splits)

lemma classify_scenario: "classify (Some scenario_certState) = Inr scenario_locals"
  by code_simp

lemma classify_absent: "classify None = Inr absent_locals"
  by code_simp


lemma formatTimestamp_falsy: "falsy v \<Longrightarrow> formatTimestamp v = Inr (lit ''N/A'')"
  by (simp add: formatTimestamp_def)

lemma formatTimestamp_total:
  assumes "in_Date_range v"
  shows "\<exists>str. formatTimestamp v = Inr str"
proof (cases "falsy v")
  case True
  then show ?thesis by (simp add: formatTimestamp_falsy)
next
  case False
  then obtain n where v: "v = JInt n" and n: "n \<noteq> 0" by (cases v) simp_all
  with assms have "\<bar>n\<bar> \<le> 8640000000000" by simp
  from formatTimestamp_in_range [OF n this] v show ?thesis by simp
qed

lemma classify_total:
  assumes "in_Date_range (validFrom (certState_of cso))"
      and "in_Date_range (validTo (certState_of cso))"
  shows "\<exists>l. classify cso = Inr l"
proof -
  from formatTimestamp_total [OF assms(1)] obtain a
    where a: "formatTimestamp (validFrom (certState_of cso)) = Inr a" by blast
  from formatTimestamp_total [OF assms(2)] obtain b
    where b: "formatTimestamp (validTo (certState_of cso)) = Inr b" by blast
  show ?thesis by (simp add: classify_def Let_def a b)
qed


lemma result_of:
  assumes "\<exists>x. f = Inr x \<and> P x" and "f = Inr y"
  shows "P y"
  using assms by auto



lemma classify_quic: "classify (Some quic_certState) = Inr quic_locals"
  by code_simp

lemma classify_blank_protocol: "classify (Some blank_protocol_certState) = Inr blank_protocol_locals"
  by code_simp

lemma classify_far: "classify (Some far_certState) = Inl RangeError"
  by code_simp

lemma formatTimestamp_2024:
  "formatTimestamp (JInt 1704067200) = Inr (lit ''2024-01-01T00:00:00.000Z'')"
  by code_simp

lemma formatTimestamp_minus_1:
  "formatTimestamp (JInt (- 1)) = Inr (lit ''1969-12-31T23:59:59.000Z'')"
  by code_simp

lemma iso_format_000Z: "suffix (lit ''.000Z'') (iso_format y mo d h mi s 0)"
proof -
  have "lit ''.'' @ pad 3 (nat 0) @ lit ''Z'' = lit ''.000Z''"
    by (simp add: lit_def numeral_3_eq_3)
  then have "iso_format y mo d h mi s 0
      = (iso_year y @ lit ''-'' @ pad 2 (nat mo) @ lit ''-'' @ pad 2 (nat d) @ lit ''T''
         @ pad 2 (nat h) @ lit '':'' @ pad 2 (nat mi) @ lit '':'' @ pad 2 (nat s))
        @ lit ''.000Z''"
    by (simp add: iso_format_def)
  then show ?thesis by (simp only: suffix_def) blast
qed

lemma formatTimestamp_date:
  assumes "n \<noteq> 0" and "\<bar>n\<bar> \<le> 8640000000000"
  shows "\<exists>y mo d h mi s.
      valid_date y mo d h mi s 0
      \<and> MakeDate (MakeDay y (mo - 1) d) (MakeTime h mi s 0) = n * 1000
      \<and> y = YearFromTime (n * 1000)
      \<and> formatTimestamp (JInt n) = Inr (iso_format y mo d h mi s 0)"
  using iso_string_seconds [of n] formatTimestamp_in_range [OF assms] by auto

text \<open>
  Within the range of \<open>Date\<close>: \<open>formatTimestamp\<close> returns \<open>N/A\<close> for zero, \<open>null\<close> and
  \<open>undefined\<close>; for a positive whole number of seconds up to 8640000000000 it returns
  the string \<open>YYYY-MM-DDTHH:mm:ss.000Z\<close> of a date and time of the calendar whose instant,
  counted in UTC, is that number of seconds after the epoch.
\<close>

lemma formatTimestamp_positive_in_range:
  "formatTimestamp (JInt 0) = Inr (lit ''N/A'')
   \<and> formatTimestamp JNull = Inr (lit ''N/A'')
   \<and> formatTimestamp JUndefined = Inr (lit ''N/A'')
   \<and> (\<forall>n. 0 < n \<and> n \<le> 8640000000000 \<longrightarrow>
        (\<exists>y mo d h mi s.
            valid_date y mo d h mi s 0
            \<and> MakeDate (MakeDay y (mo - 1) d) (MakeTime h mi s 0) = n * 1000
            \<and> formatTimestamp (JInt n) = Inr (iso_format y mo d h mi s 0)
            \<and> suffix (lit ''.000Z'') (iso_format y mo d h mi s 0)))
   \<and> formatTimestamp (JInt 1704067200) = Inr (lit ''2024-01-01T00:00:00.000Z'')"
proof -
  have falsy: "formatTimestamp (JInt 0) = Inr (lit ''N/A'')"
    "formatTimestamp JNull = Inr (lit ''N/A'')"
    "formatTimestamp JUndefined = Inr (lit ''N/A'')"
    by (simp_all add: formatTimestamp_falsy)
  have pos: "\<exists>y mo d h mi s.
            valid_date y mo d h mi s 0
            \<and> MakeDate (MakeDay y (mo - 1) d) (MakeTime h mi s 0) = n * 1000
            \<and> formatTimestamp (JInt n) = Inr (iso_format y mo d h mi s 0)
            \<and> suffix (lit ''.000Z'') (iso_format y mo d h mi s 0)"
    if "0 < n \<and> n \<le> 8640000000000" for n
  proof -
    from that have "n \<noteq> 0" "\<bar>n\<bar> \<le> 8640000000000" by simp_all
    from formatTimestamp_date [OF this] iso_format_000Z show ?thesis by blast
  qed
  from falsy pos formatTimestamp_2024 show ?thesis by blast
qed

text \<open>
  C4. \<open>formatTimestamp\<close> is documented to return a string for every timestamp, the
  formatted date or \<open>N/A\<close>, and it tests for a falsy argument only. For the positive
  whole number of seconds 8640000000001, one second after the last instant a \<open>Date\<close> can
  hold, it returns neither: \<open>toISOString\<close> throws a RangeError.
\<close>

theorem formatTimestamp_positive_throws:
  "(0::int) < 8640000000001
   \<and> \<not> falsy (JInt 8640000000001)
   \<and> new_Date_ms (JInt 8640000000001) = None
   \<and> formatTimestamp (JInt 8640000000001) = Inl RangeError"
  by (simp add: formatTimestamp_out_of_range TimeClip_def)

text \<open>
  Within the range of \<open>Date\<close>: for a negative whole number of seconds down to
  -8640000000000 \<open>formatTimestamp\<close> returns the string of a date before 1970 whose instant
  is that number of seconds, and not \<open>N/A\<close>; the result is \<open>N/A\<close> for the falsy arguments
  only.
\<close>

lemma formatTimestamp_negative_in_range:
  "(\<forall>n. n < 0 \<and> - 8640000000000 \<le> n \<longrightarrow>
        (\<exists>y mo d h mi s.
            y \<le> 1969 \<and> valid_date y mo d h mi s 0
            \<and> MakeDate (MakeDay y (mo - 1) d) (MakeTime h mi s 0) = n * 1000
            \<and> formatTimestamp (JInt n) = Inr (iso_format y mo d h mi s 0)
            \<and> formatTimestamp (JInt n) \<noteq> Inr (lit ''N/A'')))
   \<and> formatTimestamp (JInt (- 1)) = Inr (lit ''1969-12-31T23:59:59.000Z'')
   \<and> (\<forall>v. formatTimestamp v = Inr (lit ''N/A'') \<longleftrightarrow> falsy v)"
proof -
  have neg: "\<exists>y mo d h mi s.
            y \<le> 1969 \<and> valid_date y mo d h mi s 0
            \<and> MakeDate (MakeDay y (mo - 1) d) (MakeTime h mi s 0) = n * 1000
            \<and> formatTimestamp (JInt n) = Inr (iso_format y mo d h mi s 0)
            \<and> formatTimestamp (JInt n) \<noteq> Inr (lit ''N/A'')"
    if "n < 0 \<and> - 8640000000000 \<le> n" for n
  proof -
    from that have r: "n \<noteq> 0" "\<bar>n\<bar> \<le> 8640000000000" by simp_all
    from that have "n * 1000 < 0" by simp
    then have "YearFromTime (n * 1000) \<le> 1969" by (rule before_epoch)
    with formatTimestamp_date [OF r] iso_format_not_NA show ?thesis
      by (metis sum.inject(2))
  qed
  have only: "formatTimestamp v = Inr (lit ''N/A'') \<longleftrightarrow> falsy v" for v
  proof (cases "falsy v")
    case True
    then show ?thesis by (simp add: formatTimestamp_falsy)
  next
    case False
    then obtain n where v: "v = JInt n" and n: "n \<noteq> 0" by (cases v) simp_all
    show ?thesis
    proof (cases "\<bar>n\<bar> \<le> 8640000000000")
      case True
      from formatTimestamp_date [OF n True] iso_format_not_NA False v show ?thesis
        by (metis sum.inject(2))
    next
      case far: False
      then have "formatTimestamp (JInt n) = Inl RangeError"
        by (simp add: formatTimestamp_out_of_range)
      with False v show ?thesis by simp
    qed
  qed
  from neg only formatTimestamp_minus_1 show ?thesis by blast
qed

text \<open>
  C9. A negative timestamp is not falsy, so \<open>formatTimestamp\<close> formats it, and its
  documentation promises a string. For -8640000000001 seconds, one second before the
  first instant a \<open>Date\<close> can hold, it returns no string, neither a date before 1970 nor
  \<open>N/A\<close>: \<open>toISOString\<close> throws a RangeError.
\<close>

theorem formatTimestamp_negative_throws:
  "(- 8640000000001 :: int) < 0
   \<and> \<not> falsy (JInt (- 8640000000001))
   \<and> new_Date_ms (JInt (- 8640000000001)) = None
   \<and> formatTimestamp (JInt (- 8640000000001)) = Inl RangeError"
  by (simp add: formatTimestamp_out_of_range TimeClip_def)

section \<open>The handler on missing and unusual properties\<close>

lemma handler_no_exception:
  assumes "classify (certificateSecurityState ev) = Inr l" and "securityState ev = Some st"
  shows "on_visibleSecurityStateChanged up ev s =
           (None, s\<lparr>result := result s @ separator @ report_body (up st) (serverHeader s) l,
                     console := console s
                       @ [result s @ separator @ report_body (up st) (serverHeader s) l],
                     logStream := logStream s
                       @ [result s @ separator @ report_body (up st) (serverHeader s) l
                            @ [LF]]\<rparr>)"
  using assms by (simp add: on_visibleSecurityStateChanged_def Let_def)

lemma handler_exception:
  assumes "classify (certificateSecurityState ev) = Inl e"
  shows "on_visibleSecurityStateChanged up ev s = (Some e, s)"
  using assms by (simp add: on_visibleSecurityStateChanged_def)

lemma transportLabel_absent: "transportLabel absent_locals = lit ''Unknown''"
  by (simp add: transportLabel_def absent_locals_def)

lemma Unknown_not_NA: "lit ''Unknown'' \<noteq> lit ''N/A''"
  by (simp add: lit_def)

text \<open>
  C2. When \<open>certificateSecurityState\<close> is absent, the handler takes \<open>N/A\<close>
  for the key exchange, the key-exchange group, the cipher, the subject, the issuer and
  both dates, and \<open>Unknown\<close> for the protocol and so for the transport label;
  \<open>pqcDetected\<close> is false. With \<open>securityState\<close> present the handler throws nothing.
\<close>

theorem absent_certificateSecurityState:
  "classify None = Inr absent_locals
   \<and> transportLabel absent_locals = lit ''Unknown''
   \<and> loc_keyExchange absent_locals = lit ''N/A''
   \<and> loc_keyExchangeGroup absent_locals = lit ''N/A''
   \<and> loc_cipher absent_locals = lit ''N/A''
   \<and> loc_subjectName absent_locals = lit ''N/A''
   \<and> loc_issuer absent_locals = lit ''N/A''
   \<and> loc_validFrom absent_locals = lit ''N/A''
   \<and> loc_validTo absent_locals = lit ''N/A''
   \<and> \<not> loc_pqcDetected absent_locals
   \<and> fst (on_visibleSecurityStateChanged up
             \<lparr>securityState = Some st, certificateSecurityState = None\<rparr> s) = None"
proof -
  have "fst (on_visibleSecurityStateChanged up
             \<lparr>securityState = Some st, certificateSecurityState = None\<rparr> s) = None"
    by (subst handler_no_exception [where l = absent_locals and st = st])
       (simp_all add: classify_absent)
  then show ?thesis
    using classify_absent transportLabel_absent by (simp add: absent_locals_def)
qed

theorem absent_certificateSecurityState_counterexample:
  "classify None = Inr absent_locals \<and> transportLabel absent_locals \<noteq> lit ''N/A''"
  using classify_absent transportLabel_absent Unknown_not_NA by simp

lemma transportLabel_of_locals:
  assumes "classify (Some cs) = Inr l" and "protocol cs = Some p"
  shows "(sublist (lit ''QUIC'') p \<longrightarrow> transportLabel l = lit ''QUIC (Uses TLS 1.3 Encryption)'')
     \<and> (\<not> sublist (lit ''QUIC'') p \<and> p \<noteq> [] \<longrightarrow> transportLabel l = p)
     \<and> (p = [] \<longrightarrow> transportLabel l = lit ''Unknown'')"
proof -
  note f = classify_fields [OF assms(1)]
  have cs: "certState_of (Some cs) = cs" by (simp add: certState_of_def)
  have nq: "\<not> sublist (lit ''QUIC'') (lit ''Unknown'')"
    unfolding str_includes_iff_sublist [symmetric] by (simp add: lit_def)
  have quic: "transportLabel l = lit ''QUIC (Uses TLS 1.3 Encryption)''"
    if "sublist (lit ''QUIC'') p"
  proof -
    from that have "p \<noteq> []" by (auto simp: lit_def)
    then have "loc_protocol l = p" using f(1) assms(2) by (simp add: cs or_default_Some)
    with that f(3) show ?thesis by (simp add: transportLabel_def str_includes_iff_sublist)
  qed
  have other: "transportLabel l = p" if "\<not> sublist (lit ''QUIC'') p \<and> p \<noteq> []"
  proof -
    from that have "loc_protocol l = p" using f(1) assms(2) by (simp add: cs or_default_Some)
    with that f(2,3) show ?thesis by (simp add: transportLabel_def str_includes_iff_sublist)
  qed
  have blank: "transportLabel l = lit ''Unknown''" if "p = []"
  proof -
    from that have "loc_protocol l = lit ''Unknown''"
      using f(1) assms(2) by (simp add: cs or_default_empty)
    with nq f(2,3) show ?thesis by (simp add: transportLabel_def str_includes_iff_sublist)
  qed
  from quic other blank show ?thesis by blast
qed

lemma transportLabel_no_protocol:
  assumes "classify cso = Inr l" and "protocol (certState_of cso) = None"
  shows "transportLabel l = lit ''Unknown''"
proof -
  note f = classify_fields [OF assms(1)]
  have nq: "\<not> sublist (lit ''QUIC'') (lit ''Unknown'')"
    unfolding str_includes_iff_sublist [symmetric] by (simp add: lit_def)
  have "loc_protocol l = lit ''Unknown''"
    using f(1) assms(2) by (simp add: or_default_None)
  with nq f(2,3) show ?thesis by (simp add: transportLabel_def str_includes_iff_sublist)
qed

text \<open>
  C5. For every record whose certificate dates are missing, \<open>null\<close>, \<open>NaN\<close> or within the
  range of \<open>Date\<close>, the handler computes its constants, whatever the other properties
  are, and the transport label of the report follows from \<open>protocol\<close> alone. When that
  property contains \<open>QUIC\<close>, the label is \<open>QUIC (Uses TLS 1.3 Encryption)\<close>. When it is a
  non-empty string without \<open>QUIC\<close>, the label is that string, unchanged. When it is the
  empty string or missing, with the certificate state or alone, the label is \<open>Unknown\<close>.
\<close>

theorem transportLabel_protocol:
  assumes "in_Date_range (validFrom (certState_of cso))"
      and "in_Date_range (validTo (certState_of cso))"
  shows "\<exists>l. classify cso = Inr l
     \<and> (\<forall>p. protocol (certState_of cso) = Some p \<and> sublist (lit ''QUIC'') p \<longrightarrow>
          transportLabel l = lit ''QUIC (Uses TLS 1.3 Encryption)'')
     \<and> (\<forall>p. protocol (certState_of cso) = Some p \<and> \<not> sublist (lit ''QUIC'') p \<and> p \<noteq> [] \<longrightarrow>
          transportLabel l = p)
     \<and> (protocol (certState_of cso) = Some [] \<longrightarrow> transportLabel l = lit ''Unknown'')
     \<and> (protocol (certState_of cso) = None \<longrightarrow> transportLabel l = lit ''Unknown'')"
proof -
  from classify_total [OF assms] obtain l where l: "classify cso = Inr l" by blast
  have some: "(sublist (lit ''QUIC'') p \<longrightarrow>
                 transportLabel l = lit ''QUIC (Uses TLS 1.3 Encryption)'')
     \<and> (\<not> sublist (lit ''QUIC'') p \<and> p \<noteq> [] \<longrightarrow> transportLabel l = p)
     \<and> (p = [] \<longrightarrow> transportLabel l = lit ''Unknown'')"
    if "protocol (certState_of cso) = Some p" for p
  proof (cases cso)
    case None
    with that show ?thesis by (simp add: certState_of_def empty_certState_def)
  next
    case (Some cs)
    with that have "protocol cs = Some p" by (simp add: certState_of_def)
    from transportLabel_of_locals [OF l [unfolded Some] this] show ?thesis .
  qed
  have none: "protocol (certState_of cso) = None \<longrightarrow> transportLabel l = lit ''Unknown''"
    using transportLabel_no_protocol [OF l] by blast
  have q: "\<forall>p. protocol (certState_of cso) = Some p \<and> sublist (lit ''QUIC'') p \<longrightarrow>
          transportLabel l = lit ''QUIC (Uses TLS 1.3 Encryption)''"
    using some by blast
  have o: "\<forall>p. protocol (certState_of cso) = Some p \<and> \<not> sublist (lit ''QUIC'') p
             \<and> p \<noteq> [] \<longrightarrow> transportLabel l = p"
    using some by blast
  have e: "protocol (certState_of cso) = Some [] \<longrightarrow> transportLabel l = lit ''Unknown''"
    using some by blast
  show ?thesis
    by (intro exI [of _ l] conjI) (rule l q o e none)+
qed

theorem transportLabel_protocol_witness:
  "in_Date_range (validFrom (certState_of (Some quic_certState)))
   \<and> in_Date_range (validTo (certState_of (Some quic_certState)))
   \<and> classify (Some quic_certState) = Inr quic_locals
   \<and> protocol (certState_of (Some quic_certState)) = Some (lit ''QUIC'')
   \<and> sublist (lit ''QUIC'') (lit ''QUIC'')
   \<and> transportLabel quic_locals = lit ''QUIC (Uses TLS 1.3 Encryption)''
   \<and> in_Date_range (validFrom (certState_of (Some scenario_certState)))
   \<and> in_Date_range (validTo (certState_of (Some scenario_certState)))
   \<and> classify (Some scenario_certState) = Inr scenario_locals
   \<and> protocol (certState_of (Some scenario_certState)) = Some (lit ''TLS 1.3'')
   \<and> \<not> sublist (lit ''QUIC'') (lit ''TLS 1.3'') \<and> lit ''TLS 1.3'' \<noteq> []
   \<and> transportLabel scenario_locals = lit ''TLS 1.3''
   \<and> classify (Some blank_protocol_certState) = Inr blank_protocol_locals
   \<and> protocol (certState_of (Some blank_protocol_certState)) = Some []
   \<and> transportLabel blank_protocol_locals = lit ''Unknown''
   \<and> classify None = Inr absent_locals
   \<and> protocol (certState_of None) = None
   \<and> transportLabel absent_locals = lit ''Unknown''"
proof -
  have rq: "in_Date_range (validFrom (certState_of (Some quic_certState)))"
    "in_Date_range (validTo (certState_of (Some quic_certState)))"
    by (simp_all add: certState_of_def quic_certState_def)
  have rt: "in_Date_range (validFrom (certState_of (Some scenario_certState)))"
    "in_Date_range (validTo (certState_of (Some scenario_certState)))"
    by (simp_all add: certState_of_def scenario_certState_def)
  have rb: "in_Date_range (validFrom (certState_of (Some blank_protocol_certState)))"
    "in_Date_range (validTo (certState_of (Some blank_protocol_certState)))"
    by (simp_all add: certState_of_def blank_protocol_certState_def scenario_certState_def)
  have rn: "in_Date_range (validFrom (certState_of None))"
    "in_Date_range (validTo (certState_of None))"
    by (simp_all add: certState_of_def empty_certState_def)
  have q: "protocol (certState_of (Some quic_certState)) = Some (lit ''QUIC'')"
    by (simp add: certState_of_def quic_certState_def)
  have t: "protocol (certState_of (Some scenario_certState)) = Some (lit ''TLS 1.3'')"
    by (simp add: certState_of_def scenario_certState_def)
  have b: "protocol (certState_of (Some blank_protocol_certState)) = Some []"
    by (simp add: certState_of_def blank_protocol_certState_def)
  have n: "protocol (certState_of None) = None"
    by (simp add: certState_of_def empty_certState_def)
  have sq: "sublist (lit ''QUIC'') (lit ''QUIC'')" by simp
  have nq: "\<not> sublist (lit ''QUIC'') (lit ''TLS 1.3'')"
    unfolding str_includes_iff_sublist [symmetric] by (simp add: lit_def)
  have ne: "lit ''TLS 1.3'' \<noteq> []" by (simp add: lit_def)
  from result_of [OF transportLabel_protocol [OF rq] classify_quic] q sq
  have 1: "transportLabel quic_locals = lit ''QUIC (Uses TLS 1.3 Encryption)''"
    by blast
  from result_of [OF transportLabel_protocol [OF rt] classify_scenario] t nq ne
  have 2: "transportLabel scenario_locals = lit ''TLS 1.3''"
    by blast
  from result_of [OF transportLabel_protocol [OF rb] classify_blank_protocol] b
  have 3: "transportLabel blank_protocol_locals = lit ''Unknown''"
    by blast
  from result_of [OF transportLabel_protocol [OF rn] classify_absent] n
  have 4: "transportLabel absent_locals = lit ''Unknown''"
    by blast
  from rq rt q t b n sq nq ne 1 2 3 4 classify_quic classify_scenario
    classify_blank_protocol classify_absent
  show ?thesis by (intro conjI)
qed

theorem transportLabel_protocol_counterexample:
  "protocol blank_protocol_certState = Some []
   \<and> \<not> sublist (lit ''QUIC'') []
   \<and> classify (Some blank_protocol_certState) = Inr blank_protocol_locals
   \<and> transportLabel blank_protocol_locals \<noteq> []"
  using classify_blank_protocol
  by (simp add: blank_protocol_certState_def blank_protocol_locals_def transportLabel_def
        scenario_locals_def lit_def)

text \<open>
  C3. The classification is meant to raise no error: \<open>formatTimestamp\<close> is documented to
  return \<open>N/A\<close> for a timestamp it cannot format. On a notification whose
  \<open>securityState\<close> is present and whose certificate is valid to 8640000000001 seconds,
  a whole number, the handler throws a RangeError and reports nothing: the test of
  \<open>formatTimestamp\<close> covers falsy values only, and \<open>toISOString\<close> throws on a date that
  \<open>Date\<close> cannot hold.
\<close>

theorem classification_throws:
  "securityState \<lparr>securityState = Some (lit ''secure''),
                  certificateSecurityState = Some far_certState\<rparr> = Some (lit ''secure'')
   \<and> validFrom far_certState = JInt 1704067200
   \<and> validTo far_certState = JInt 8640000000001
   \<and> formatTimestamp (validTo far_certState) = Inl RangeError
   \<and> classify (Some far_certState) = Inl RangeError
   \<and> on_visibleSecurityStateChanged upper_ascii
        \<lparr>securityState = Some (lit ''secure''),
         certificateSecurityState = Some far_certState\<rparr>
        (checkTLS_init (lit ''https://example.org'') [] [])
      = (Some RangeError, checkTLS_init (lit ''https://example.org'') [] [])"
proof -
  have v: "validTo far_certState = JInt 8640000000001"
    "validFrom far_certState = JInt 1704067200"
    by (simp_all add: far_certState_def scenario_certState_def)
  have f: "formatTimestamp (validTo far_certState) = Inl RangeError"
    by (simp add: v formatTimestamp_out_of_range)
  have "on_visibleSecurityStateChanged upper_ascii
          \<lparr>securityState = Some (lit ''secure''),
           certificateSecurityState = Some far_certState\<rparr>
          (checkTLS_init (lit ''https://example.org'') [] [])
        = (Some RangeError, checkTLS_init (lit ''https://example.org'') [] [])"
    by (rule handler_exception) (simp add: classify_far)
  with v f classify_far show ?thesis by simp
qed

section \<open>The notifications of a page\<close>

lemma upper_secure: "upper_ascii (lit ''secure'') = lit ''SECURE''"
  by (simp add: upper_ascii_def lit_def)

lemma on_response_server:
  "on_response h s = s\<lparr>serverHeader := server_after (serverHeader s) h\<rparr>"
  by (simp add: on_response_def server_after_def split: option.splits)

lemma handler_success:
  assumes "on_visibleSecurityStateChanged up ev s = (None, s')"
  shows "s' = s\<lparr>result := result s @ notification_block up (serverHeader s) ev,
                  console := console s @ [result s @ notification_block up (serverHeader s) ev],
                  logStream := logStream s
                    @ [result s @ notification_block up (serverHeader s) ev @ [LF]]\<rparr>
         \<and> notification_block up (serverHeader s) ev \<noteq> []"
  using assms
  by (auto simp: on_visibleSecurityStateChanged_def notification_block_def Let_def
        separator_def split: sum.splits option.splits)

lemma run_events_emitted:
  assumes "run_events up es s = Inr s'"
  shows "result s' = result s @ concat (blocks up (serverHeader s) es)
     \<and> console s' = console s @ emitted (result s) (blocks up (serverHeader s) es)
     \<and> logStream s' = logStream s
          @ map (\<lambda>t. t @ [LF]) (emitted (result s) (blocks up (serverHeader s) es))
     \<and> [] \<notin> set (blocks up (serverHeader s) es)"
  using assms
proof (induction es arbitrary: s)
  case Nil
  then show ?case by simp
next
  case (Cons e es)
  show ?case
  proof (cases e)
    case (Response h)
    with Cons.prems have "run_events up es (on_response h s) = Inr s'" by simp
    from Cons.IH [OF this] Response show ?thesis by (simp add: on_response_server)
  next
    case (SecurityStateChanged ev)
    obtain r s1 where h: "on_visibleSecurityStateChanged up ev s = (r, s1)"
      by (cases "on_visibleSecurityStateChanged up ev s")
    with Cons.prems SecurityStateChanged have r: "r = None" and run: "run_events up es s1 = Inr s'"
      by (auto split: option.splits)
    from handler_success [OF h [unfolded r]] Cons.IH [OF run] SecurityStateChanged
    show ?thesis by auto
  qed
qed

lemma emitted_take:
  "emitted r bs = map (\<lambda>k. r @ concat (take (Suc k) bs)) [0..<length bs]"
proof (induction bs arbitrary: r)
  case Nil
  then show ?case by simp
next
  case (Cons b bs)
  have "map (\<lambda>k. r @ concat (take (Suc k) (b # bs))) [0..<length (b # bs)]
        = (r @ b) # map (\<lambda>k. r @ concat (take (Suc k) (b # bs))) (map Suc [0..<length bs])"
    by (simp add: upt_conv_Cons map_Suc_upt del: upt_Suc)
  also have "\<dots> = (r @ b) # map (\<lambda>k. (r @ b) @ concat (take (Suc k) bs)) [0..<length bs]"
    by simp
  finally show ?case using Cons.IH [of "r @ b"] by simp
qed

lemma run_twice:
  "run_events upper_ascii [SecurityStateChanged secure_absent, SecurityStateChanged secure_absent]
     (checkTLS_init example_url [] []) = Inr twice_state"
proof -
  have c: "classify (certificateSecurityState secure_absent) = Inr absent_locals"
    by (simp add: secure_absent_def classify_absent)
  have st: "securityState secure_absent = Some (lit ''secure'')"
    by (simp add: secure_absent_def)
  show ?thesis
    by (simp add: handler_no_exception [OF c st] upper_secure checkTLS_init_def twice_state_def
          block0_def)
qed

lemma block0_eq: "notification_block upper_ascii (lit ''N/A'') secure_absent = block0"
  by (simp add: notification_block_def secure_absent_def classify_absent upper_secure block0_def)

lemma block0_nonempty: "block0 \<noteq> []"
  by (simp add: block0_def separator_def)

lemma run_events_total:
  assumes "\<forall>e\<in>set es. event_ok e"
  shows "\<exists>s'. run_events up es s = Inr s'"
  using assms
proof (induction es arbitrary: s)
  case Nil
  then show ?case by simp
next
  case (Cons e es)
  then have rest: "\<forall>e\<in>set es. event_ok e" and e: "event_ok e" by simp_all
  show ?case
  proof (cases e)
    case (Response hs)
    with Cons.IH [OF rest] show ?thesis by simp
  next
    case (SecurityStateChanged ev)
    with e have ok: "notification_ok ev" by simp
    then obtain st where st: "securityState ev = Some st"
      by (auto simp: notification_ok_def)
    from ok classify_total obtain l where l: "classify (certificateSecurityState ev) = Inr l"
      unfolding notification_ok_def by blast
    from Cons.IH [OF rest] SecurityStateChanged show ?thesis
      by (simp add: handler_no_exception [OF l st])
  qed
qed

text \<open>
  C6. Take the events of one page whose notifications all have \<open>securityState\<close> present
  and certificate dates that are missing, \<open>null\<close>, \<open>NaN\<close> or within the range of \<open>Date\<close>.
  The handler then throws nothing, and each notification hands one text to the console
  and to the log as it arrives, but the texts are not independent: \<open>result\<close> is kept for
  the whole page and every notification appends its block to it, so the text handed
  over at the k-th notification is the text \<open>result\<close> had before the first one (the page
  header on a new page) followed by the blocks of the notifications 1 to k, in order.
  Nothing is overwritten. The block of a notification depends on that notification and
  on the server header at that moment only, and is never empty.
\<close>

theorem notifications_accumulate:
  assumes "\<forall>e\<in>set es. event_ok e"
  shows "\<exists>s'. run_events up es s = Inr s'
     \<and> result s' = result s @ concat (blocks up (serverHeader s) es)
     \<and> console s' = console s
          @ map (\<lambda>k. result s @ concat (take (Suc k) (blocks up (serverHeader s) es)))
              [0..<length (blocks up (serverHeader s) es)]
     \<and> logStream s' = logStream s
          @ map (\<lambda>k. result s @ concat (take (Suc k) (blocks up (serverHeader s) es)) @ [LF])
              [0..<length (blocks up (serverHeader s) es)]
     \<and> (\<forall>b\<in>set (blocks up (serverHeader s) es). b \<noteq> [])"
proof -
  from run_events_total [OF assms] obtain s' where run: "run_events up es s = Inr s'"
    by blast
  note e = run_events_emitted [OF run]
  have r: "result s' = result s @ concat (blocks up (serverHeader s) es)"
    using e by blast
  have c: "console s' = console s
          @ map (\<lambda>k. result s @ concat (take (Suc k) (blocks up (serverHeader s) es)))
              [0..<length (blocks up (serverHeader s) es)]"
    using e by (simp add: emitted_take)
  have l: "logStream s' = logStream s
          @ map (\<lambda>k. result s @ concat (take (Suc k) (blocks up (serverHeader s) es)) @ [LF])
              [0..<length (blocks up (serverHeader s) es)]"
    using e by (simp add: emitted_take o_def)
  have n: "\<forall>b\<in>set (blocks up (serverHeader s) es). b \<noteq> []"
    using e by blast
  show ?thesis
    by (intro exI [of _ s'] conjI) (rule run r c l n)+
qed

theorem notifications_accumulate_witness:
  "event_ok (SecurityStateChanged secure_absent)
   \<and> run_events upper_ascii
       [SecurityStateChanged secure_absent, SecurityStateChanged secure_absent]
       (checkTLS_init example_url [] []) = Inr twice_state
   \<and> blocks upper_ascii (lit ''N/A'')
        [SecurityStateChanged secure_absent, SecurityStateChanged secure_absent]
       = [block0, block0]
   \<and> block0 \<noteq> []
   \<and> result twice_state = header example_url @ block0 @ block0
   \<and> console twice_state = [header example_url @ block0, header example_url @ block0 @ block0]"
proof -
  have ok: "\<forall>e\<in>set [SecurityStateChanged secure_absent, SecurityStateChanged secure_absent].
              event_ok e"
    by (simp add: notification_ok_def secure_absent_def certState_of_def empty_certState_def)
  have b: "blocks upper_ascii (lit ''N/A'')
        [SecurityStateChanged secure_absent, SecurityStateChanged secure_absent]
       = [block0, block0]"
    by (simp add: block0_eq)
  have u: "[0..<2] = [0, Suc 0]"
    by (simp add: upt_conv_Cons)
  note a = result_of [OF notifications_accumulate
      [OF ok, of upper_ascii "checkTLS_init example_url [] []"] run_twice]
  from a have res: "result twice_state = header example_url @ block0 @ block0"
    by (simp add: checkTLS_init_def block0_eq)
  from a have ne: "block0 \<noteq> []"
    by (simp add: checkTLS_init_def block0_eq)
  have con: "console twice_state
               = [header example_url @ block0, header example_url @ block0 @ block0]"
    by (simp add: twice_state_def)
  have ok1: "event_ok (SecurityStateChanged secure_absent)"
    using ok by simp
  from ok1 run_twice b ne res con show ?thesis by (intro conjI)
qed

theorem notifications_accumulate_counterexample:
  "run_events upper_ascii
     [SecurityStateChanged secure_absent, SecurityStateChanged secure_absent]
     (checkTLS_init example_url [] []) = Inr twice_state
   \<and> console twice_state = [header example_url @ block0, header example_url @ block0 @ block0]
   \<and> header example_url @ block0 \<noteq> header example_url @ block0 @ block0"
  using run_twice block0_nonempty by (simp add: twice_state_def)

lemma block_text:
  "separator @ report_body upper server l =
     lit ''----------------------------------------'' @ [0x0A]
     @ [0xD83D, 0xDD12] @ lit '' Security State: '' @ upper @ [0x0A]
     @ [0xD83D, 0xDDA5, 0xFE0F] @ lit '' Server: '' @ server @ [0x0A]
     @ [0xD83C, 0xDF10] @ lit '' Transport Protocol: ''
         @ (if loc_isQUIC l then lit ''QUIC (Uses TLS 1.3 Encryption)'' else loc_tlsVersion l)
         @ [0x0A]
     @ [0xD83D, 0xDD11] @ lit '' Key Exchange: '' @ loc_keyExchange l @ [0x0A]
     @ [0xD83D, 0xDD04] @ lit '' Key Exchange Group: '' @ loc_keyExchangeGroup l @ [0x0A]
     @ [0xD83D, 0xDD10] @ lit '' Cipher Suite: '' @ loc_cipher l @ [0x0A]
     @ [0xD83D, 0xDCDC] @ lit '' Certificate Subject: '' @ loc_subjectName l @ [0x0A]
     @ [0xD83C, 0xDFDB, 0xFE0F] @ lit '' Issuer: '' @ loc_issuer l @ [0x0A]
     @ [0xD83D, 0xDCC5] @ lit '' Valid From: '' @ loc_validFrom l @ [0x0A]
     @ [0xD83D, 0xDCC5] @ lit '' Valid To: '' @ loc_validTo l @ [0x0A]
     @ lit ''----------------------------------------'' @ [0x0A]
     @ (if loc_pqcDetected l
        then [0x2705] @ lit '' This site is using Post-Quantum Encryption (PQC)! ''
               @ [0xD83C, 0xDF89] @ [0x0A]
        else [0x274C] @ lit '' This site is NOT using Post-Quantum Encryption.'' @ [0x0A])"
  by (simp add: separator_def report_body_def line_state_def line_server_def
        line_transport_def transportLabel_def line_keyExchange_def line_keyExchangeGroup_def
        line_cipher_def line_subject_def line_issuer_def line_validFrom_def line_validTo_def
        line_verdict_def padlock_def desktop_def globe_def key_def arrows_def locked_key_def
        scroll_def building_def calendar_def check_mark_def party_def cross_mark_def LF_def)

lemma header_text:
  "header url = [0x0A] @ [0xD83D, 0xDD0D] @ lit '' Checking: '' @ url @ [0x0A]"
  by (simp add: header_def glass_def LF_def)

text \<open>
  C7. The text of a report is built by the handler itself, by appending to \<open>result\<close>, so
  it is not a function of the URL, the classification and the server header alone, and
  building it has effects. On every notification whose \<open>securityState\<close> is present and
  whose certificate dates are missing, \<open>null\<close>, \<open>NaN\<close> or within the range of \<open>Date\<close>, the
  handler throws nothing, and the text it hands to the console and, with a line feed
  added, to the log is the text \<open>result\<close> held before, followed by these lines in this
  order, each ended by a line feed and worded as in the source: separator, upper-cased
  security state, server header, transport, key exchange, key-exchange group, cipher,
  subject, issuer, valid from, valid to, separator, verdict. The text is fixed by the
  former \<open>result\<close>, the upper-cased security state, the constants of the handler and the
  server header; it becomes the new \<open>result\<close>. On a new page \<open>result\<close> is the header line
  with the URL, between two line feeds, and the server header is \<open>N/A\<close>.
\<close>

theorem formatReport_fixed_order:
  assumes "securityState ev = Some st"
      and "in_Date_range (validFrom (certState_of (certificateSecurityState ev)))"
      and "in_Date_range (validTo (certState_of (certificateSecurityState ev)))"
  shows "\<exists>l. classify (certificateSecurityState ev) = Inr l
     \<and> (\<exists>report.
       report = result s
         @ lit ''----------------------------------------'' @ [0x0A]
         @ [0xD83D, 0xDD12] @ lit '' Security State: '' @ up st @ [0x0A]
         @ [0xD83D, 0xDDA5, 0xFE0F] @ lit '' Server: '' @ serverHeader s @ [0x0A]
         @ [0xD83C, 0xDF10] @ lit '' Transport Protocol: ''
             @ (if loc_isQUIC l then lit ''QUIC (Uses TLS 1.3 Encryption)''
                else loc_tlsVersion l)
             @ [0x0A]
         @ [0xD83D, 0xDD11] @ lit '' Key Exchange: '' @ loc_keyExchange l @ [0x0A]
         @ [0xD83D, 0xDD04] @ lit '' Key Exchange Group: '' @ loc_keyExchangeGroup l @ [0x0A]
         @ [0xD83D, 0xDD10] @ lit '' Cipher Suite: '' @ loc_cipher l @ [0x0A]
         @ [0xD83D, 0xDCDC] @ lit '' Certificate Subject: '' @ loc_subjectName l @ [0x0A]
         @ [0xD83C, 0xDFDB, 0xFE0F] @ lit '' Issuer: '' @ loc_issuer l @ [0x0A]
         @ [0xD83D, 0xDCC5] @ lit '' Valid From: '' @ loc_validFrom l @ [0x0A]
         @ [0xD83D, 0xDCC5] @ lit '' Valid To: '' @ loc_validTo l @ [0x0A]
         @ lit ''----------------------------------------'' @ [0x0A]
         @ (if loc_pqcDetected l
            then [0x2705] @ lit '' This site is using Post-Quantum Encryption (PQC)! ''
                   @ [0xD83C, 0xDF89] @ [0x0A]
            else [0x274C] @ lit '' This site is NOT using Post-Quantum Encryption.''
                   @ [0x0A])
     \<and> on_visibleSecurityStateChanged up ev s
         = (None, s\<lparr>result := report, console := console s @ [report],
                     logStream := logStream s @ [report @ [0x0A]]\<rparr>)
     \<and> result (checkTLS_init url con log)
         = [0x0A] @ [0xD83D, 0xDD0D] @ lit '' Checking: '' @ url @ [0x0A]
     \<and> serverHeader (checkTLS_init url con log) = lit ''N/A'')"
proof -
  from classify_total [OF assms(2,3)] obtain l
    where l: "classify (certificateSecurityState ev) = Inr l" by blast
  define report where "report = result s @ separator @ report_body (up st) (serverHeader s) l"
  have h: "on_visibleSecurityStateChanged up ev s
         = (None, s\<lparr>result := report, console := console s @ [report],
                     logStream := logStream s @ [report @ [0x0A]]\<rparr>)"
    by (simp add: handler_no_exception [OF l assms(1)] report_def LF_def)
  have i: "result (checkTLS_init url con log)
         = [0x0A] @ [0xD83D, 0xDD0D] @ lit '' Checking: '' @ url @ [0x0A]"
    "serverHeader (checkTLS_init url con log) = lit ''N/A''"
    by (simp_all add: checkTLS_init_def header_text)
  show ?thesis
    by (intro exI [of _ l] conjI exI [of _ report])
       (rule l h i report_def [unfolded block_text])+
qed

theorem formatReport_fixed_order_witness:
  "securityState secure_scenario = Some (lit ''secure'')
   \<and> in_Date_range (validFrom (certState_of (certificateSecurityState secure_scenario)))
   \<and> in_Date_range (validTo (certState_of (certificateSecurityState secure_scenario)))
   \<and> classify (certificateSecurityState secure_scenario) = Inr scenario_locals
   \<and> fst (on_visibleSecurityStateChanged upper_ascii secure_scenario cloudflare_page) = None
   \<and> console (snd (on_visibleSecurityStateChanged upper_ascii secure_scenario
                      cloudflare_page))
       = [[0x0A] @ [0xD83D, 0xDD0D] @ lit '' Checking: '' @ lit ''https://example.com''
            @ [0x0A]
          @ lit ''----------------------------------------'' @ [0x0A]
          @ [0xD83D, 0xDD12] @ lit '' Security State: '' @ lit ''SECURE'' @ [0x0A]
          @ [0xD83D, 0xDDA5, 0xFE0F] @ lit '' Server: '' @ lit ''cloudflare'' @ [0x0A]
          @ [0xD83C, 0xDF10] @ lit '' Transport Protocol: '' @ lit ''TLS 1.3'' @ [0x0A]
          @ [0xD83D, 0xDD11] @ lit '' Key Exchange: '' @ lit ''N/A'' @ [0x0A]
          @ [0xD83D, 0xDD04] @ lit '' Key Exchange Group: '' @ lit ''X25519_MLKEM768''
            @ [0x0A]
          @ [0xD83D, 0xDD10] @ lit '' Cipher Suite: '' @ lit ''TLS_AES_128_GCM_SHA256''
            @ [0x0A]
          @ [0xD83D, 0xDCDC] @ lit '' Certificate Subject: '' @ lit ''example.com'' @ [0x0A]
          @ [0xD83C, 0xDFDB, 0xFE0F] @ lit '' Issuer: '' @ lit ''Test CA'' @ [0x0A]
          @ [0xD83D, 0xDCC5] @ lit '' Valid From: '' @ lit ''2024-01-01T00:00:00.000Z''
            @ [0x0A]
          @ [0xD83D, 0xDCC5] @ lit '' Valid To: '' @ lit ''2024-12-31T23:59:59.000Z''
            @ [0x0A]
          @ lit ''----------------------------------------'' @ [0x0A]
          @ [0x2705] @ lit '' This site is using Post-Quantum Encryption (PQC)! ''
            @ [0xD83C, 0xDF89] @ [0x0A]]"
proof -
  have st: "securityState secure_scenario = Some (lit ''secure'')"
    by (simp add: secure_scenario_def)
  have r: "in_Date_range (validFrom (certState_of (certificateSecurityState secure_scenario)))"
    "in_Date_range (validTo (certState_of (certificateSecurityState secure_scenario)))"
    by (simp_all add: secure_scenario_def certState_of_def scenario_certState_def)
  have c: "classify (certificateSecurityState secure_scenario) = Inr scenario_locals"
    by (simp add: secure_scenario_def classify_scenario)
  note a = result_of [OF formatReport_fixed_order
      [where s = cloudflare_page and up = upper_ascii and url = example_url
         and con = "[]" and log = "[]", OF st r] c]
  from a st r c show ?thesis
    by (elim exE conjE)
       (simp add: scenario_locals_def cloudflare_page_def header_text example_url_def
          upper_secure)
qed

theorem formatReport_fixed_order_counterexample:
  "fst (on_visibleSecurityStateChanged upper_ascii secure_scenario cloudflare_page) = None
   \<and> fst (on_visibleSecurityStateChanged upper_ascii secure_scenario
            (snd (on_visibleSecurityStateChanged upper_ascii secure_scenario cloudflare_page)))
       = None
   \<and> serverHeader (snd (on_visibleSecurityStateChanged upper_ascii secure_scenario
                           cloudflare_page)) = serverHeader cloudflare_page
   \<and> result (snd (on_visibleSecurityStateChanged upper_ascii secure_scenario cloudflare_page))
       \<noteq> result cloudflare_page
   \<and> last (console (snd (on_visibleSecurityStateChanged upper_ascii secure_scenario
            (snd (on_visibleSecurityStateChanged upper_ascii secure_scenario cloudflare_page)))))
       \<noteq> last (console (snd (on_visibleSecurityStateChanged upper_ascii secure_scenario
                                 cloudflare_page)))"
proof -
  have st: "securityState secure_scenario = Some (lit ''secure'')"
    by (simp add: secure_scenario_def)
  have c: "classify (certificateSecurityState secure_scenario) = Inr scenario_locals"
    by (simp add: secure_scenario_def classify_scenario)
  have ne: "separator \<noteq> []"
    by (simp add: separator_def)
  show ?thesis
    by (simp add: handler_no_exception [OF c st] ne)
qed

section \<open>main and the file of URLs\<close>

lemma str_trim_nonblank: "str_trim l \<noteq> [] \<longleftrightarrow> nonblank l"
proof
  assume "str_trim l \<noteq> []"
  then have "dropWhile isWhiteSpace (rev (dropWhile isWhiteSpace l)) \<noteq> []"
    by (simp add: str_trim_def)
  then obtain c where "c \<in> set (rev (dropWhile isWhiteSpace l))" "\<not> isWhiteSpace c"
    by (auto simp: dropWhile_eq_Nil_conv)
  then have "c \<in> set l" by (auto dest: set_dropWhileD)
  with \<open>\<not> isWhiteSpace c\<close> show "nonblank l" by (auto simp: nonblank_def)
next
  assume "nonblank l"
  then have ne: "dropWhile isWhiteSpace l \<noteq> []"
    by (auto simp: nonblank_def dropWhile_eq_Nil_conv)
  then have "\<not> isWhiteSpace (hd (dropWhile isWhiteSpace l))"
    by (rule hd_dropWhile)
  moreover from ne have "hd (dropWhile isWhiteSpace l) \<in> set (rev (dropWhile isWhiteSpace l))"
    by simp
  ultimately have "dropWhile isWhiteSpace (rev (dropWhile isWhiteSpace l)) \<noteq> []"
    by (auto simp: dropWhile_eq_Nil_conv)
  then show "str_trim l \<noteq> []" by (simp add: str_trim_def)
qed

lemma cons_first_nonempty: "cons_first c ls \<noteq> []"
  by (cases ls) simp_all

lemma split_lines_nonempty: "split_lines s \<noteq> []"
  by (induction s rule: split_lines.induct) (simp_all add: cons_first_nonempty)

lemma cons_first_eq: "ls \<noteq> [] \<Longrightarrow> cons_first c ls = (c # hd ls) # tl ls"
  by (cases ls) simp_all

lemma length_split_lines: "length (split_lines s) = Suc (length (terminators s))"
  by (induction s rule: split_lines.induct)
     (auto simp: cons_first_eq split_lines_nonempty)

lemma weave_cons_first:
  "ls \<noteq> [] \<Longrightarrow> weave (cons_first c ls) ts = c # weave ls ts"
  by (cases ls; cases ts) simp_all

lemma weave_split_lines: "weave (split_lines s) (terminators s) = s"
  by (induction s rule: split_lines.induct)
     (auto simp: weave_cons_first split_lines_nonempty)

lemma terminators_set: "set (terminators s) \<subseteq> {[LF], [CR, LF]}"
  by (induction s rule: terminators.induct) auto

lemma set_cons_first:
  "ls \<noteq> [] \<Longrightarrow> l \<in> set (cons_first c ls) \<Longrightarrow> l = c # hd ls \<or> l \<in> set (tl ls)"
  by (cases ls) auto

lemma split_lines_no_LF: "l \<in> set (split_lines s) \<Longrightarrow> LF \<notin> set l"
proof (induction s arbitrary: l rule: split_lines.induct)
  case 1
  then show ?case by simp
next
  case (2 c)
  then show ?case by (auto split: if_splits)
next
  case (3 c d cs)
  show ?case
  proof (cases "c = LF")
    case True
    with 3 show ?thesis by auto
  next
    case nl: False
    show ?thesis
    proof (cases "c = CR \<and> d = LF")
      case True
      with nl 3 show ?thesis by auto
    next
      case False
      with nl "3.prems" have "l \<in> set (cons_first c (split_lines (d # cs)))" by auto
      from set_cons_first [OF split_lines_nonempty this]
      have "l = c # hd (split_lines (d # cs)) \<or> l \<in> set (tl (split_lines (d # cs)))" .
      moreover have "hd (split_lines (d # cs)) \<in> set (split_lines (d # cs))"
        using split_lines_nonempty by simp
      moreover have "set (tl (split_lines (d # cs))) \<subseteq> set (split_lines (d # cs))"
        by (metis list.set_sel(2) split_lines_nonempty subsetI)
      ultimately show ?thesis using "3.IH"(3) [OF nl False] nl by auto
    qed
  qed
qed

lemma filter_trim_nonblank: "filter (\<lambda>line. str_trim line \<noteq> []) ls = filter nonblank ls"
  by (simp add: str_trim_nonblank)

lemma resolve_urls_file:
  assumes "fs p = Some (File content)"
  shows "resolve_urls max_args fs [p]
           = push_spread max_args [] (filter nonblank (split_lines content))"
  using assms
  by (simp add: resolve_urls_def file_mode_def existsSync_def readFileSync_def
        filter_trim_nonblank)

lemma split_urls_txt:
  "split_lines urls_txt
     = [lit ''https://a.example'', [0x20, 0x09], [], lit ''https://b.example '', []]"
  by code_simp

lemma filter_urls_txt:
  "filter nonblank (split_lines urls_txt) = [lit ''https://a.example'', lit ''https://b.example '']"
  unfolding split_urls_txt by (simp add: nonblank_def isWhiteSpace_def lit_def)

lemma filter_blank_txt: "filter nonblank (split_lines blank_txt) = []"
  by (simp add: blank_txt_def nonblank_def isWhiteSpace_def LF_def CR_def)

lemma example_fs_urls: "example_fs (lit ''urls.txt'') = Some (File urls_txt)"
  by (simp add: example_fs_def lit_def)

lemma example_fs_blank: "example_fs (lit ''blank.txt'') = Some (File blank_txt)"
  by (simp add: example_fs_def lit_def)

lemma main_of_urls:
  "resolve_urls max_args fs args = Inr urls \<Longrightarrow>
   main max_args fs args = (if urls = [] then Inr (UsageExit usage 1) else Inr (CheckAll urls))"
  by (simp add: main_def)

lemma main_of_error:
  "resolve_urls max_args fs args = Inl e \<Longrightarrow> main max_args fs args = Inl e"
  by (simp add: main_def)

text \<open>
  Within the number of arguments the engine accepts: when the single argument names a
  file, the list of URLs is made of the lines of its content that hold a code unit other
  than white space, whole and in the order of the file. The lines are what is left
  between the line ends (a line feed, or a carriage return and a line feed): with the
  line ends put back they give the content again, and no line holds a line feed. When no
  line is left, \<open>main\<close> writes the usage message and exits with code 1; otherwise it
  checks the URLs of the list.
\<close>

lemma url_file_lines_within_limit:
  assumes "fs p = Some (File content)"
      and "length (filter nonblank (split_lines content)) \<le> max_args"
  shows "resolve_urls max_args fs [p] = Inr (filter nonblank (split_lines content))
     \<and> (\<forall>l. nonblank l \<longleftrightarrow> str_trim l \<noteq> [])
     \<and> weave (split_lines content) (terminators content) = content
     \<and> length (split_lines content) = Suc (length (terminators content))
     \<and> set (terminators content) \<subseteq> {[LF], [CR, LF]}
     \<and> (\<forall>l\<in>set (split_lines content). LF \<notin> set l)
     \<and> (filter nonblank (split_lines content) = [] \<longrightarrow>
          main max_args fs [p]
            = Inr (UsageExit (lit ''Usage: node check-pqc.js <URL> or <file-with-URLs>'') 1))
     \<and> (filter nonblank (split_lines content) \<noteq> [] \<longrightarrow>
          main max_args fs [p] = Inr (CheckAll (filter nonblank (split_lines content))))"
proof -
  have r: "resolve_urls max_args fs [p] = Inr (filter nonblank (split_lines content))"
    using resolve_urls_file [of fs p content max_args, OF assms(1)] assms(2)
    by (simp add: push_spread_def)
  have m: "filter nonblank (split_lines content) = [] \<longrightarrow>
             main max_args fs [p]
               = Inr (UsageExit (lit ''Usage: node check-pqc.js <URL> or <file-with-URLs>'') 1)"
    "filter nonblank (split_lines content) \<noteq> [] \<longrightarrow>
             main max_args fs [p] = Inr (CheckAll (filter nonblank (split_lines content)))"
    using main_of_urls [OF r] by (simp_all add: usage_def)
  have n: "\<forall>l\<in>set (split_lines content). LF \<notin> set l"
    using split_lines_no_LF by blast
  show ?thesis
    by (intro conjI allI)
       (rule r str_trim_nonblank [symmetric] weave_split_lines length_split_lines
          terminators_set n m)+
qed

lemma url_file_examples:
  "resolve_urls 125000 example_fs [lit ''urls.txt'']
       = Inr [lit ''https://a.example'', lit ''https://b.example '']
   \<and> main 125000 example_fs [lit ''urls.txt'']
       = Inr (CheckAll [lit ''https://a.example'', lit ''https://b.example ''])
   \<and> main 125000 example_fs [lit ''blank.txt'']
       = Inr (UsageExit (lit ''Usage: node check-pqc.js <URL> or <file-with-URLs>'') 1)"
proof -
  from url_file_lines_within_limit [of example_fs "lit ''urls.txt''" urls_txt 125000,
      OF example_fs_urls]
  have a: "resolve_urls 125000 example_fs [lit ''urls.txt'']
             = Inr [lit ''https://a.example'', lit ''https://b.example '']"
    "main 125000 example_fs [lit ''urls.txt'']
             = Inr (CheckAll [lit ''https://a.example'', lit ''https://b.example ''])"
    by (simp_all add: filter_urls_txt)
  from url_file_lines_within_limit [of example_fs "lit ''blank.txt''" blank_txt 125000,
      OF example_fs_blank]
  have b: "main 125000 example_fs [lit ''blank.txt'']
             = Inr (UsageExit (lit ''Usage: node check-pqc.js <URL> or <file-with-URLs>'') 1)"
    by (simp add: filter_blank_txt)
  from a b show ?thesis by simp
qed

lemma split_lines_line:
  assumes "LF \<notin> set u" and "CR \<notin> set u"
  shows "split_lines (u @ LF # rest) = u # split_lines rest"
  using assms
proof (induction u)
  case Nil
  then show ?case by (cases rest) simp_all
next
  case (Cons c u)
  obtain d cs where t: "u @ LF # rest = d # cs" by (cases u) auto
  from Cons.prems have c: "c \<noteq> LF" "c \<noteq> CR" and u: "LF \<notin> set u" "CR \<notin> set u" by auto
  have "split_lines ((c # u) @ LF # rest) = split_lines (c # d # cs)" by (simp add: t)
  also have "\<dots> = cons_first c (split_lines (d # cs))" using c by simp
  also have "\<dots> = cons_first c (u # split_lines rest)"
    using Cons.IH [OF u] by (simp add: t [symmetric])
  finally show ?case by simp
qed

lemma example_line:
  "LF \<notin> set (lit ''https://example.com'')" "CR \<notin> set (lit ''https://example.com'')"
  "nonblank (lit ''https://example.com'')"
  by (simp_all add: lit_def LF_def CR_def nonblank_def isWhiteSpace_def)

lemma many_urls_Suc: "many_urls (Suc n) = lit ''https://example.com'' @ LF # many_urls n"
  by (simp add: many_urls_def)

lemma split_many_urls:
  "split_lines (many_urls n) = replicate n (lit ''https://example.com'') @ [[]]"
proof (induction n)
  case 0
  then show ?case by (simp add: many_urls_def)
next
  case (Suc n)
  then show ?case
    by (simp only: many_urls_Suc split_lines_line [OF example_line(1,2)]) simp
qed

lemma kept_many_urls:
  "filter nonblank (split_lines (many_urls n)) = replicate n (lit ''https://example.com'')"
proof -
  have "\<not> nonblank []" by (simp add: nonblank_def)
  then show ?thesis
    using example_line(3) by (simp only: split_many_urls filter_append filter_replicate) simp
qed

lemma too_many_urls:
  assumes "max_args < n" and "fs p = Some (File (many_urls n))"
  shows "filter (\<lambda>line. str_trim line \<noteq> []) (split_lines (many_urls n))
           = replicate n (lit ''https://example.com'')
     \<and> resolve_urls max_args fs [p] = Inl RangeError
     \<and> main max_args fs [p] = Inl RangeError"
proof -
  have k: "filter (\<lambda>line. str_trim line \<noteq> []) (split_lines (many_urls n))
           = replicate n (lit ''https://example.com'')"
    by (simp only: filter_trim_nonblank kept_many_urls)
  have "length (filter nonblank (split_lines (many_urls n))) = n"
    by (simp only: kept_many_urls length_replicate)
  with assms(1) have r: "resolve_urls max_args fs [p] = Inl RangeError"
    using resolve_urls_file [of fs p "many_urls n" max_args, OF assms(2)]
    by (simp only: push_spread_def if_True)
  from k r main_of_error [OF r] show ?thesis by (intro conjI)
qed

text \<open>
  C8. The URLs of a file should be the lines of its content that are not blank, whatever
  the content. \<open>main\<close> adds them to the list with \<open>urls.push(...lines)\<close>, one argument for
  every line, and the engine throws a RangeError when there are more lines than it
  accepts arguments. For a file of a million lines, each \<open>https://example.com\<close>, and an
  engine that accepts fewer than a million arguments, all the lines are kept by the
  filter, and \<open>main\<close> throws instead of checking the URLs.
\<close>

theorem url_file_too_long:
  assumes "max_args < 1000000" and "fs p = Some (File (many_urls 1000000))"
  shows "filter (\<lambda>line. str_trim line \<noteq> []) (split_lines (many_urls 1000000))
           = replicate 1000000 (lit ''https://example.com'')
     \<and> resolve_urls max_args fs [p] = Inl RangeError
     \<and> main max_args fs [p] = Inl RangeError"
  by (rule too_many_urls [of max_args 1000000 fs p, OF assms])

theorem url_file_too_long_witness:
  "(125000::nat) < 1000000
   \<and> big_fs (lit ''urls.txt'') = Some (File (many_urls 1000000))
   \<and> resolve_urls 125000 big_fs [lit ''urls.txt''] = Inl RangeError
   \<and> main 125000 big_fs [lit ''urls.txt''] = Inl RangeError"
proof -
  have a: "(125000::nat) < 1000000" by simp
  have b: "big_fs (lit ''urls.txt'') = Some (File (many_urls 1000000))"
    by (simp only: big_fs_def fun_upd_same)
  from url_file_too_long [of 125000 big_fs "lit ''urls.txt''", OF a b]
  have "resolve_urls 125000 big_fs [lit ''urls.txt''] = Inl RangeError"
    "main 125000 big_fs [lit ''urls.txt''] = Inl RangeError"
    by (rule conjunct1 [OF conjunct2], rule conjunct2 [OF conjunct2])
  with a b show ?thesis by (intro conjI)
qed

text \<open>
  The arguments as URLs: the file is read only when there is exactly one argument and
  \<open>existsSync\<close> holds of it. In every other case the arguments themselves are the URLs;
  with two or more arguments all of them are checked, in order, whatever the file system
  holds.
\<close>

lemma arguments_as_urls:
  "(file_mode fs args \<longleftrightarrow> (\<exists>p. args = [p] \<and> existsSync fs p))
   \<and> (\<not> file_mode fs args \<longrightarrow> resolve_urls max_args fs args = Inr args)
   \<and> (2 \<le> length args \<longrightarrow>
        \<not> file_mode fs args \<and> resolve_urls max_args fs args = Inr args
        \<and> main max_args fs args = Inr (CheckAll args))"
proof -
  have one: "length args = 1 \<longleftrightarrow> (\<exists>p. args = [p])"
    by (cases args) auto
  have a: "file_mode fs args \<longleftrightarrow> (\<exists>p. args = [p] \<and> existsSync fs p)"
    using one by (auto simp: file_mode_def)
  have b: "\<not> file_mode fs args \<longrightarrow> resolve_urls max_args fs args = Inr args"
    by (simp add: resolve_urls_def)
  have d: "2 \<le> length args \<longrightarrow>
        \<not> file_mode fs args \<and> resolve_urls max_args fs args = Inr args
        \<and> main max_args fs args = Inr (CheckAll args)"
  proof
    assume two: "2 \<le> length args"
    then have nf: "\<not> file_mode fs args" by (simp add: file_mode_def)
    then have r: "resolve_urls max_args fs args = Inr args" by (simp add: resolve_urls_def)
    from two have "args \<noteq> []" by auto
    with main_of_urls [OF r] have "main max_args fs args = Inr (CheckAll args)" by simp
    with nf r show "\<not> file_mode fs args \<and> resolve_urls max_args fs args = Inr args
        \<and> main max_args fs args = Inr (CheckAll args)" by simp
  qed
  from a b d show ?thesis by blast
qed

lemma example_fs_logs: "example_fs (lit ''logs'') = Some Directory"
  by (simp add: example_fs_def lit_def)

text \<open>
  C10. The file of URLs is meant to be read only when the single argument names an
  existing file: the source says that it checks whether the argument is a file path.
  The test is \<open>existsSync\<close> alone, which holds of a directory as well. With the single
  argument \<open>logs\<close>, an existing directory, the branch that reads the file is taken,
  \<open>readFileSync\<close> throws EISDIR, and \<open>main\<close> neither checks \<open>logs\<close> as a URL nor prints
  the usage message.
\<close>

theorem directory_read_as_file:
  "example_fs (lit ''logs'') = Some Directory
   \<and> existsSync example_fs (lit ''logs'')
   \<and> file_mode example_fs [lit ''logs'']
   \<and> readFileSync example_fs (lit ''logs'') = Inl EISDIR
   \<and> resolve_urls max_args example_fs [lit ''logs''] = Inl EISDIR
   \<and> main max_args example_fs [lit ''logs''] = Inl EISDIR"
  by (simp add: main_def resolve_urls_def file_mode_def existsSync_def readFileSync_def
        example_fs_logs)

end
